theory Spec2Isabelle
  imports Complex_Main
begin

section \<open>JavaScript values\<close>

text \<open>
  The values that the fields of a task or of a calendar event hold. Tasks and events reach the
  server as JSON (request bodies, parsed model output), so a field is a JSON scalar or is absent
  (\<open>JUndefined\<close>); \<open>JNaN\<close> is the one non-JSON number the code itself produces.
  Numbers are integers (floating point is outside the model); strings are ASCII.
\<close>

datatype jsval = JUndefined | JNull | JBool bool | JNum int | JNaN | JStr string

text \<open>Truthiness, as \<open>if (v)\<close>, \<open>!v\<close> and \<open>v || d\<close> read it.\<close>

fun truthy :: "jsval \<Rightarrow> bool" where
  "truthy JUndefined = False"
| "truthy JNull = False"
| "truthy (JBool b) = b"
| "truthy (JNum n) = (n \<noteq> 0)"
| "truthy JNaN = False"
| "truthy (JStr s) = (s \<noteq> [])"

definition js_or :: "jsval \<Rightarrow> jsval \<Rightarrow> jsval" where
  "js_or a b = (if truthy a then a else b)"

definition digitChar :: "nat \<Rightarrow> char" where
  "digitChar d = char_of (48 + d)"

function showNat :: "nat \<Rightarrow> string" where
  "showNat n = (if n < 10 then [digitChar n] else showNat (n div 10) @ [digitChar (n mod 10)])"
  by pat_completeness auto
termination
  by (relation "measure id") auto

declare showNat.simps [simp del]

definition showInt :: "int \<Rightarrow> string" where
  "showInt i = (if i < 0 then CHR ''-'' # showNat (nat (- i)) else showNat (nat i))"

text \<open>
  \<open>String(v)\<close>, which a template literal and \<open>v.toString()\<close> on a primitive compute;
  an integer is written in decimal (as JavaScript does below \<open>10^21\<close>).
\<close>

fun toStr :: "jsval \<Rightarrow> string" where
  "toStr JUndefined = ''undefined''"
| "toStr JNull = ''null''"
| "toStr (JBool b) = (if b then ''true'' else ''false'')"
| "toStr (JNum n) = showInt n"
| "toStr JNaN = ''NaN''"
| "toStr (JStr s) = s"

text \<open>\<open>String.prototype.trim\<close> and \<open>toLowerCase\<close> on ASCII text.\<close>

definition isSpace :: "char \<Rightarrow> bool" where
  "isSpace c = (let n = (of_char c :: nat) in n = 9 \<or> n = 10 \<or> n = 11 \<or> n = 12 \<or> n = 13 \<or> n = 32)"

definition trim :: "string \<Rightarrow> string" where
  "trim s = rev (dropWhile isSpace (rev (dropWhile isSpace s)))"

definition lowerChar :: "char \<Rightarrow> char" where
  "lowerChar c = (let n = (of_char c :: nat) in if 65 \<le> n \<and> n \<le> 90 then char_of (n + 32) else c)"


definition toLowerCase :: "string \<Rightarrow> string" where
  "toLowerCase s = map lowerChar s"



section \<open>The task cache (\<open>src/unnamed/part_001\<close>, required as \<open>services/taskCache\<close>)\<close>

text \<open>
  A preparation task with the six fields that \<open>taskKey\<close> reads. An array element that is
  \<open>null\<close> is \<open>None\<close>.
\<close>

record task =
  task_id :: jsval
  task_task :: jsval
  task_title :: jsval
  task_category :: jsval
  task_description :: jsval
  task_estimatedTime :: jsval

text \<open>
  \<open>deepCloneTasks\<close> is \<open>JSON.parse(JSON.stringify(tasks))\<close>: an absent field stays
  absent and \<open>NaN\<close> becomes \<open>null\<close>; every other scalar is copied.
\<close>

fun cloneVal :: "jsval \<Rightarrow> jsval" where
  "cloneVal JNaN = JNull"
| "cloneVal v = v"

definition cloneTask :: "task \<Rightarrow> task" where
  "cloneTask t = \<lparr> task_id = cloneVal (task_id t), task_task = cloneVal (task_task t),
     task_title = cloneVal (task_title t), task_category = cloneVal (task_category t),
     task_description = cloneVal (task_description t),
     task_estimatedTime = cloneVal (task_estimatedTime t) \<rparr>"

definition deepCloneTasks :: "task option list \<Rightarrow> task option list" where
  "deepCloneTasks tasks = map (map_option cloneTask) tasks"

definition fallbackPart :: "jsval \<Rightarrow> string" where
  "fallbackPart v = toLowerCase (trim (toStr (js_or v (JStr ''''))))"

definition taskKey :: "task option \<Rightarrow> string option" where
  "taskKey task =
     (case task of
        None \<Rightarrow> None
      | Some t \<Rightarrow>
          if truthy (task_id t) then Some (''id:'' @ toStr (task_id t))
          else if truthy (task_task t)
            then Some (''task:'' @ toLowerCase (trim (toStr (task_task t))))
          else if truthy (task_title t)
            then Some (''title:'' @ toLowerCase (trim (toStr (task_title t))))
          else Some (''fallback:'' @ fallbackPart (task_category t) @ ''|''
                 @ fallbackPart (task_description t) @ ''|''
                 @ fallbackPart (task_estimatedTime t)))"

record entry =
  remainingTasks :: "task option list"
  completedTaskKeys :: "string set"
  createdAt :: int
  updatedAt :: int

type_synonym cache = "string \<rightharpoonup> entry"

text \<open>The filter both writers apply: a task stays unless its key is a completed one.\<close>

definition notCompleted :: "string set \<Rightarrow> task option \<Rightarrow> bool" where
  "notCompleted ks task = (case taskKey task of None \<Rightarrow> True | Some identifier \<Rightarrow> identifier \<notin> ks)"

text \<open>
  Each method takes the cache and returns the new one; \<open>now\<close> is the reading of
  \<open>Date.now()\<close>. The event id is any value: it is tested for truthiness and keyed by
  \<open>String(eventId)\<close>.
\<close>

definition setRemainingTasks :: "int \<Rightarrow> jsval \<Rightarrow> task option list \<Rightarrow> cache \<Rightarrow> cache" where
  "setRemainingTasks now eventId preparationTasks c =
     (if \<not> truthy eventId then c
      else let key = toStr eventId; clonedTasks = deepCloneTasks preparationTasks in
        case c key of
          Some e \<Rightarrow> c(key \<mapsto> e\<lparr> remainingTasks := filter (notCompleted (completedTaskKeys e)) clonedTasks,
                                 updatedAt := now \<rparr>)
        | None \<Rightarrow> c(key \<mapsto> \<lparr> remainingTasks = clonedTasks, completedTaskKeys = {},
                               createdAt = now, updatedAt = now \<rparr>))"

definition getRemainingTasks :: "jsval \<Rightarrow> cache \<Rightarrow> task option list option" where
  "getRemainingTasks eventId c =
     (if \<not> truthy eventId then None
      else case c (toStr eventId) of None \<Rightarrow> None | Some e \<Rightarrow> Some (deepCloneTasks (remainingTasks e)))"

definition addKeys :: "task option list \<Rightarrow> string set \<Rightarrow> string set" where
  "addKeys tasks ks = fold (\<lambda>task acc. case taskKey task of None \<Rightarrow> acc | Some identifier \<Rightarrow> insert identifier acc) tasks ks"

definition markTasksCompleted :: "int \<Rightarrow> jsval \<Rightarrow> task option list \<Rightarrow> cache \<Rightarrow> cache" where
  "markTasksCompleted now eventId tasks c =
     (if \<not> truthy eventId \<or> tasks = [] then c
      else let key = toStr eventId;
               e = (case c key of
                      Some e \<Rightarrow> e
                    | None \<Rightarrow> \<lparr> remainingTasks = [], completedTaskKeys = {},
                                 createdAt = now, updatedAt = now \<rparr>);
               ks = addKeys tasks (completedTaskKeys e)
           in c(key \<mapsto> e\<lparr> completedTaskKeys := ks,
                           remainingTasks := filter (notCompleted ks) (remainingTasks e),
                           updatedAt := now \<rparr>))"

definition getRemainingCount :: "jsval \<Rightarrow> cache \<Rightarrow> nat" where
  "getRemainingCount eventId c =
     (case c (toStr eventId) of None \<Rightarrow> 0 | Some e \<Rightarrow> length (remainingTasks e))"

definition clear :: "jsval \<Rightarrow> cache \<Rightarrow> cache" where
  "clear eventId c = (if \<not> truthy eventId then c else c(toStr eventId := None))"

definition clearAll :: "cache \<Rightarrow> cache" where
  "clearAll c = Map.empty"

text \<open>
  The cache starts empty (the constructor's \<open>new Map()\<close>). A client is a sequence of
  method calls, each with the clock reading at the call; the two readers leave the cache as it is.
\<close>

definition newTaskCache :: cache where
  "newTaskCache = Map.empty"

datatype op =
    SetRemainingTasks jsval "task option list"
  | MarkTasksCompleted jsval "task option list"
  | GetRemainingTasks jsval
  | GetRemainingCount jsval
  | Clear jsval
  | ClearAll

fun apply_op :: "int \<times> op \<Rightarrow> cache \<Rightarrow> cache" where
  "apply_op (now, SetRemainingTasks eventId tasks) c = setRemainingTasks now eventId tasks c"
| "apply_op (now, MarkTasksCompleted eventId tasks) c = markTasksCompleted now eventId tasks c"
| "apply_op (now, GetRemainingTasks eventId) c = c"
| "apply_op (now, GetRemainingCount eventId) c = c"
| "apply_op (now, Clear eventId) c = clear eventId c"
| "apply_op (now, ClearAll) c = clearAll c"

definition run :: "(int \<times> op) list \<Rightarrow> cache \<Rightarrow> cache" where
  "run ops c = fold apply_op ops c"

fun clears :: "string \<Rightarrow> op \<Rightarrow> bool" where
  "clears key (Clear eventId) = (truthy eventId \<and> toStr eventId = key)"
| "clears key ClearAll = True"
| "clears key _ = False"

definition cacheInv :: "cache \<Rightarrow> bool" where
  "cacheInv c = (\<forall>key e. c key = Some e \<longrightarrow> (\<forall>t \<in> set (remainingTasks e). notCompleted (completedTaskKeys e) t))"

text \<open>A completed key stays completed while no operation clears the entry.\<close>

definition hasCompleted :: "string \<Rightarrow> string \<Rightarrow> cache \<Rightarrow> bool" where
  "hasCompleted key k c = (case c key of None \<Rightarrow> False | Some e \<Rightarrow> k \<in> completedTaskKeys e)"

text \<open>Sample tasks and a sample event id.\<close>

definition emptyTask :: task where
  "emptyTask = \<lparr> task_id = JUndefined, task_task = JUndefined, task_title = JUndefined,
     task_category = JUndefined, task_description = JUndefined, task_estimatedTime = JUndefined \<rparr>"

definition taskA :: task where "taskA = emptyTask\<lparr> task_task := JStr ''Buy gift'' \<rparr>"
definition taskB :: task where "taskB = emptyTask\<lparr> task_task := JStr ''Book venue'' \<rparr>"
definition taskC :: task where "taskC = emptyTask\<lparr> task_task := JStr ''Send invites'' \<rparr>"

definition eventE :: jsval where "eventE = JStr ''evt-1''"

section \<open>Conversation history compaction (\<open>ConversationSummarizer\<close> in \<open>src/server/services/documentProcessor.js\<close>)\<close>

record message =
  role :: string
  content :: string

definition shouldSummarize :: "int \<Rightarrow> int \<Rightarrow> bool" where
  "shouldSummarize messageCount lastSummarizedAt =
     (let EXCHANGES_BEFORE_SUMMARY = 4; MESSAGES_PER_EXCHANGE = 2;
          THRESHOLD = EXCHANGES_BEFORE_SUMMARY * MESSAGES_PER_EXCHANGE
      in messageCount \<ge> THRESHOLD \<and> messageCount - lastSummarizedAt \<ge> THRESHOLD)"

text \<open>The result is the pair \<open>(toSummarize, toKeep)\<close>.\<close>

definition getMessagesToSummarize :: "message list \<Rightarrow> int \<Rightarrow> message list \<times> message list" where
  "getMessagesToSummarize allMessages lastSummarizedAt =
     (let MESSAGES_TO_KEEP = 8 in
      if length allMessages \<le> MESSAGES_TO_KEEP then ([], allMessages)
      else let splitPoint = length allMessages - MESSAGES_TO_KEEP
           in (take splitPoint allMessages, drop splitPoint allMessages))"

datatype error = BadRequest | ParseIntentFailed | SummarizerFailed

definition orElse :: "string option \<Rightarrow> string \<Rightarrow> string" where
  "orElse v d = (case v of None \<Rightarrow> d | Some s \<Rightarrow> if s = [] then d else s)"

fun joinWith :: "string \<Rightarrow> string list \<Rightarrow> string" where
  "joinWith sep [] = []"
| "joinWith sep [x] = x"
| "joinWith sep (x # y # ys) = x @ sep @ joinWith sep (y # ys)"

text \<open>
  \<open>summarizeConversation\<close>. The chat completion is the language model's: \<open>completion\<close>
  maps the messages and the existing summary (from which the prompt is built) to the text it
  returns, or to \<open>None\<close> when the call fails.
\<close>

definition summarizeConversation ::
  "(message list \<Rightarrow> string option \<Rightarrow> string option) \<Rightarrow> message list \<Rightarrow> string option \<Rightarrow> error + string" where
  "summarizeConversation completion messages existingSummary =
     (if messages = [] then Inr (orElse existingSummary [])
      else case completion messages existingSummary of
             Some text \<Rightarrow> Inr (trim text)
           | None \<Rightarrow>
               if orElse existingSummary [] \<noteq> [] then Inr (orElse existingSummary [])
               else Inr (''Discussed: '' @
                      joinWith ''; '' (map (\<lambda>msg. take 50 (content msg))
                                        (filter (\<lambda>msg. role msg = ''user'') messages))))"

section \<open>Intent parsing (\<open>OpenAIVoiceAdapter\<close> in \<open>src/server/services/documentProcessor.js\<close>)\<close>

record details =
  d_title :: jsval
  d_date :: jsval
  d_time :: jsval
  d_duration :: jsval
  d_location :: jsval
  d_description :: jsval

definition noDetails :: details where
  "noDetails = \<lparr> d_title = JUndefined, d_date = JUndefined, d_time = JUndefined,
     d_duration = JUndefined, d_location = JUndefined, d_description = JUndefined \<rparr>"

text \<open>
  The JSON object that the model's reply parses to; an absent or \<open>null\<close> field is \<open>None\<close>.
\<close>

record parsed =
  p_intent :: "string option"
  p_eventDetails :: "details option"
  p_wishlistItemId :: jsval
  p_wishlistItemMatch :: jsval
  p_updates :: jsval
  p_followUpQuestion :: "string option"
  p_missingInfo :: "string list option"
  p_confidence :: "rat option"

text \<open>The completion call fails, or its text is not JSON, or it parses.\<close>

datatype llmReply = LlmFailure | BadJson | Reply parsed

record intentResult =
  r_intent :: string
  r_eventDetails :: details
  r_wishlistItemId :: jsval
  r_wishlistItemMatch :: jsval
  r_updates :: jsval
  r_followUpQuestion :: "string option"
  r_missingInfo :: "string list"
  r_confidence :: rat
  r_readyToProcess :: bool
  r_conversationHistory :: "message list option"
  r_abort :: bool
  r_abortMessage :: "string option"

definition orNull :: "jsval \<Rightarrow> jsval" where
  "orNull v = js_or v JNull"

definition orNumber :: "rat option \<Rightarrow> rat \<Rightarrow> rat" where
  "orNumber v d = (case v of None \<Rightarrow> d | Some x \<Rightarrow> if x = 0 then d else x)"

definition orList :: "'a list option \<Rightarrow> 'a list" where
  "orList v = (case v of None \<Rightarrow> [] | Some xs \<Rightarrow> xs)"

definition orCount :: "int option \<Rightarrow> int" where
  "orCount v = (case v of None \<Rightarrow> 0 | Some n \<Rightarrow> n)"

definition orDetails :: "details option \<Rightarrow> details" where
  "orDetails v = (case v of None \<Rightarrow> noDetails | Some d \<Rightarrow> d)"

definition abortText :: string where
  "abortText = ''I'' @ [CHR 0x27] @ ''m having trouble understanding. Please add or delete events manually.''"

text \<open>
  \<open>parseIntent\<close>, from the context's history and follow-up count and the model's reply.
  A field that a branch's object literal does not mention is \<open>JUndefined\<close>, \<open>None\<close> or,
  for \<open>abort\<close>, \<open>False\<close>.
\<close>

definition parseIntent ::
  "string \<Rightarrow> message list option \<Rightarrow> int option \<Rightarrow> llmReply \<Rightarrow> error + intentResult" where
  "parseIntent transcript ctxHistory ctxFollowUpCount reply =
     (let conversationHistory = orList ctxHistory;
          followUpCount = orCount ctxFollowUpCount;
          maxFollowUps = 5
      in case reply of
           LlmFailure \<Rightarrow> Inl ParseIntentFailed
         | BadJson \<Rightarrow> Inl ParseIntentFailed
         | Reply p \<Rightarrow>
             if orElse (p_intent p) [] = [] then Inl ParseIntentFailed
             else if p_intent p = Some ''needs_clarification'' \<and> followUpCount < maxFollowUps then
               Inr \<lparr> r_intent = ''needs_clarification'',
                     r_eventDetails = orDetails (p_eventDetails p),
                     r_wishlistItemId = orNull (p_wishlistItemId p),
                     r_wishlistItemMatch = orNull (p_wishlistItemMatch p),
                     r_updates = orNull (p_updates p),
                     r_followUpQuestion = Some (orElse (p_followUpQuestion p) ''Could you provide more details?''),
                     r_missingInfo = orList (p_missingInfo p),
                     r_confidence = orNumber (p_confidence p) (1 / 2),
                     r_readyToProcess = False,
                     r_conversationHistory = Some (conversationHistory @
                        [\<lparr> role = ''user'', content = transcript \<rparr>,
                         \<lparr> role = ''assistant'', content = orElse (p_followUpQuestion p) [] \<rparr>]),
                     r_abort = False,
                     r_abortMessage = None \<rparr>
             else if p_intent p = Some ''needs_clarification'' \<and> followUpCount \<ge> maxFollowUps then
               Inr \<lparr> r_intent = ''needs_clarification'',
                     r_eventDetails = orDetails (p_eventDetails p),
                     r_wishlistItemId = JUndefined,
                     r_wishlistItemMatch = JUndefined,
                     r_updates = JUndefined,
                     r_followUpQuestion = None,
                     r_missingInfo = orList (p_missingInfo p),
                     r_confidence = 0,
                     r_readyToProcess = False,
                     r_conversationHistory = None,
                     r_abort = True,
                     r_abortMessage = Some abortText \<rparr>
             else
               Inr \<lparr> r_intent = orElse (p_intent p) [],
                     r_eventDetails = orDetails (p_eventDetails p),
                     r_wishlistItemId = orNull (p_wishlistItemId p),
                     r_wishlistItemMatch = orNull (p_wishlistItemMatch p),
                     r_updates = orNull (p_updates p),
                     r_followUpQuestion = None,
                     r_missingInfo = [],
                     r_confidence = orNumber (p_confidence p) (4 / 5),
                     r_readyToProcess = True,
                     r_conversationHistory = None,
                     r_abort = False,
                     r_abortMessage = None \<rparr>)"

section \<open>The voice route and its conversation store (\<open>src/server/routes/voice.js\<close>)\<close>

record conversation =
  c_id :: string
  c_createdAt :: int
  c_updatedAt :: int
  c_status :: string
  c_eventDetails :: details
  c_lastIntent :: "string option"
  c_followUpCount :: "int option"
  c_conversationHistory :: "message list option"
  c_summary :: "string option"
  c_lastSummarizedAt :: "int option"

text \<open>
  \<open>req.session.voiceConversations\<close> is a plain object. The map holds its own properties,
  the stored conversations. \<open>store[id]\<close> searches the prototype chain as well: under the
  name of a member of \<open>Object.prototype\<close> it finds that member (a built-in function, or
  for \<open>__proto__\<close> the prototype itself) when the store has no property of that name, and
  \<open>delete store[id]\<close> removes own properties only.
\<close>

type_synonym store = "string \<rightharpoonup> conversation"

definition objectPrototypeNames :: "string list" where
  "objectPrototypeNames =
     [''constructor'', ''__defineGetter__'', ''__defineSetter__'', ''hasOwnProperty'',
      ''__lookupGetter__'', ''__lookupSetter__'', ''isPrototypeOf'', ''propertyIsEnumerable'',
      ''toString'', ''valueOf'', ''__proto__'', ''toLocaleString'']"

text \<open>
  \<open>v || null\<close> on a string that may be missing: \<open>None\<close> is a falsy one (absent,
  \<open>null\<close> or empty).
\<close>

definition nonEmpty :: "string option \<Rightarrow> string option" where
  "nonEmpty v = (case v of None \<Rightarrow> None | Some s \<Rightarrow> if s = [] then None else Some s)"

text \<open>What a lookup in the store finds.\<close>

datatype found = Missing | Stored conversation | Builtin

text \<open>
  \<open>getConversation\<close>: \<open>null\<close> for a falsy id, else
  \<open>store[conversationId] || null\<close>.
\<close>

definition getConversation :: "store \<Rightarrow> string option \<Rightarrow> found" where
  "getConversation st conversationId =
     (case nonEmpty conversationId of
        None \<Rightarrow> Missing
      | Some i \<Rightarrow>
          (case st i of
             Some c \<Rightarrow> Stored c
           | None \<Rightarrow> if i \<in> set objectPrototypeNames then Builtin else Missing))"

definition stored :: "found \<Rightarrow> conversation option" where
  "stored f = (case f of Stored c \<Rightarrow> Some c | _ \<Rightarrow> None)"

definition keep :: "'a option \<Rightarrow> 'a option \<Rightarrow> 'a option" where
  "keep old new = (case new of None \<Rightarrow> old | Some v \<Rightarrow> Some v)"

text \<open>
  \<open>saveConversation\<close> does nothing for a falsy id; else it stores
  \<open>{...(store[id] || {}), ...conversation, updatedAt}\<close>: a property that the new object
  lacks is kept from the stored one. The route saves under an id that it has found as an own
  property or has just generated.
\<close>

definition saveConversation :: "int \<Rightarrow> store \<Rightarrow> string option \<Rightarrow> conversation \<Rightarrow> store" where
  "saveConversation now st conversationId c =
     (case nonEmpty conversationId of
        None \<Rightarrow> st
      | Some i \<Rightarrow>
          (case st i of
             None \<Rightarrow> st(i \<mapsto> c\<lparr> c_updatedAt := now \<rparr>)
           | Some old \<Rightarrow>
               st(i \<mapsto> c\<lparr> c_updatedAt := now,
                           c_lastIntent := keep (c_lastIntent old) (c_lastIntent c),
                           c_followUpCount := keep (c_followUpCount old) (c_followUpCount c),
                           c_conversationHistory := keep (c_conversationHistory old) (c_conversationHistory c),
                           c_summary := keep (c_summary old) (c_summary c),
                           c_lastSummarizedAt := keep (c_lastSummarizedAt old) (c_lastSummarizedAt c) \<rparr>)))"

text \<open>\<open>clearConversation\<close>: nothing for a falsy id, else \<open>if (store[id]) delete store[id]\<close>.\<close>

definition clearConversation :: "store \<Rightarrow> string option \<Rightarrow> store" where
  "clearConversation st conversationId =
     (case nonEmpty conversationId of None \<Rightarrow> st | Some i \<Rightarrow> st(i := None))"

definition present :: "jsval \<Rightarrow> bool" where
  "present v = (v \<noteq> JUndefined \<and> v \<noteq> JNull \<and> v \<noteq> JStr [])"

definition mergeField :: "jsval \<Rightarrow> jsval \<Rightarrow> jsval" where
  "mergeField base upd = (if present upd then upd else base)"

definition mergeEventDetails :: "details \<Rightarrow> details \<Rightarrow> details" where
  "mergeEventDetails base updates =
     (let merged = \<lparr> d_title = mergeField (d_title base) (d_title updates),
                      d_date = mergeField (d_date base) (d_date updates),
                      d_time = mergeField (d_time base) (d_time updates),
                      d_duration = mergeField (d_duration base) (d_duration updates),
                      d_location = mergeField (d_location base) (d_location updates),
                      d_description = mergeField (d_description base) (d_description updates) \<rparr>
      in if d_duration merged = JUndefined then merged\<lparr> d_duration := JNum 60 \<rparr> else merged)"

definition hasMeaningfulEventDetails :: "details \<Rightarrow> bool" where
  "hasMeaningfulEventDetails d =
     (present (d_title d) \<or> present (d_date d) \<or> present (d_time d)
      \<or> present (d_location d) \<or> present (d_description d))"

record request =
  q_transcript :: string
  q_conversationHistory :: "message list option"
  q_followUpCount :: "int option"
  q_conversationId :: "string option"

record response =
  s_intent :: string
  s_eventDetails :: details
  s_wishlistItemId :: jsval
  s_wishlistItemMatch :: jsval
  s_updates :: jsval
  s_followUpQuestion :: "string option"
  s_missingInfo :: "string list"
  s_confidence :: rat
  s_readyToProcess :: bool
  s_abort :: bool
  s_abortMessage :: "string option"
  s_conversationHistory :: "message list"
  s_conversationId :: "string option"
  s_historyLength :: nat

subsection \<open>Conversation ids\<close>

definition digit36 :: "int \<Rightarrow> char" where
  "digit36 d = (if d < 10 then char_of (48 + d) else char_of (87 + d))"

function base36 :: "int \<Rightarrow> string" where
  "base36 n = (if n < 36 then [digit36 n] else base36 (n div 36) @ [digit36 (n mod 36)])"
  by pat_completeness auto
termination
  by (relation "measure nat") auto

declare base36.simps [simp del]

text \<open>
  \<open>`conv_${Date.now().toString(36)}_${Math.random().toString(36).slice(2, 8)}`\<close>, from the
  clock and the text of the random number in base 36 (\<open>0.\<close> and its digits).
\<close>

definition generateConversationId :: "int \<Rightarrow> string \<Rightarrow> string" where
  "generateConversationId now random =
     ''conv_'' @ (if now < 0 then CHR ''-'' # base36 (- now) else base36 now)
       @ ''_'' @ take 6 (drop 2 random)"

text \<open>The object literal of a conversation that the route creates.\<close>

definition newConversation :: "string \<Rightarrow> int \<Rightarrow> conversation" where
  "newConversation conversationId now =
     \<lparr> c_id = conversationId, c_createdAt = now, c_updatedAt = now, c_status = ''collecting'',
       c_eventDetails = noDetails, c_lastIntent = None, c_followUpCount = None,
       c_conversationHistory = None, c_summary = None, c_lastSummarizedAt = None \<rparr>"

subsection \<open>The handler of \<open>POST /process\<close>\<close>

text \<open>
  The route's first block: merge the slots of this turn into the conversation, creating it when
  an event-managing intent brings the first details. It yields the store, the conversation id,
  the conversation and the intent result as the block leaves them.
\<close>

definition mergeTurn ::
  "int \<Rightarrow> string \<Rightarrow> int \<Rightarrow> store \<Rightarrow> string option \<Rightarrow> conversation option \<Rightarrow> intentResult
     \<Rightarrow> store \<times> string option \<times> conversation option \<times> intentResult" where
  "mergeTurn now freshId followUpCount st conversationId conv ir =
     (let managesEventConversation = (r_intent ir = ''add_event'' \<or> r_intent ir = ''needs_clarification'');
          containsEventDetails = hasMeaningfulEventDetails (r_eventDetails ir)
      in if managesEventConversation \<and> containsEventDetails then
           let cid = (case conv of None \<Rightarrow> Some freshId | Some c \<Rightarrow> conversationId);
               c0 = (case conv of None \<Rightarrow> newConversation freshId now | Some c \<Rightarrow> c);
               mergedDetails = mergeEventDetails (c_eventDetails c0) (r_eventDetails ir);
               c1 = c0\<lparr> c_eventDetails := mergedDetails,
                         c_lastIntent := Some (r_intent ir),
                         c_followUpCount := Some followUpCount,
                         c_status := (if r_intent ir = ''add_event'' \<and> r_readyToProcess ir then ''ready''
                                      else if c_status c0 = [] then ''collecting'' else c_status c0) \<rparr>
           in (saveConversation now st cid c1, cid, Some c1, ir\<lparr> r_eventDetails := mergedDetails \<rparr>)
         else case conv of
                Some c0 \<Rightarrow>
                  let mergedDetails = mergeEventDetails (c_eventDetails c0) (r_eventDetails ir);
                      c1 = c0\<lparr> c_eventDetails := mergedDetails \<rparr>
                  in (saveConversation now st conversationId c1, conversationId, Some c1,
                        ir\<lparr> r_eventDetails := mergedDetails \<rparr>)
              | None \<Rightarrow> (st, conversationId, None, ir))"

text \<open>
  The route's last block: append the exchange to the history and compact it when
  \<open>shouldSummarize\<close> says so. \<open>summarize\<close> is the summarizer as the route calls it.
\<close>

definition recordExchange ::
  "(message list \<Rightarrow> string option \<Rightarrow> error + string) \<Rightarrow> int \<Rightarrow> message list \<Rightarrow> conversation \<Rightarrow> conversation" where
  "recordExchange summarize followUpCount newHistory c =
     (let lastSummarizedAt = orCount (c_lastSummarizedAt c);
          c' = (if shouldSummarize (int (length newHistory)) lastSummarizedAt then
                  let (toSummarize, toKeep) = getMessagesToSummarize newHistory lastSummarizedAt;
                      existingSummary = nonEmpty (c_summary c)
                  in case summarize toSummarize existingSummary of
                       Inr newSummary \<Rightarrow>
                         c\<lparr> c_summary := Some newSummary,
                            c_conversationHistory := Some toKeep,
                            c_lastSummarizedAt := Some (int (length newHistory)) \<rparr>
                     | Inl e \<Rightarrow>
                         c\<lparr> c_conversationHistory := Some (drop (length newHistory - 8) newHistory) \<rparr>
                else c\<lparr> c_conversationHistory := Some newHistory \<rparr>)
      in c'\<lparr> c_followUpCount := Some followUpCount \<rparr>)"

text \<open>
  What a request to \<open>/process\<close> leads to: an error response, which leaves the store as it
  was; an answer; or, when the conversation id named a member of \<open>Object.prototype\<close> and
  nothing was stored under it, assignments of the conversation's fields to that built-in, an
  object of the whole process. The model does not follow the process beyond such an
  assignment.
\<close>

datatype outcome = Failed error | Answered store response | BuiltinWritten

text \<open>
  The handler. \<open>now\<close> is the clock (taken not to advance within the request),
  \<open>random\<close> the text of the random number in base 36, \<open>reply\<close> the language model's
  answer. The adapter gets the context's own history and count where the context has them
  (\<open>...context\<close> comes last in its argument).
\<close>

definition processVoice ::
  "int \<Rightarrow> string \<Rightarrow> llmReply \<Rightarrow> (message list \<Rightarrow> string option \<Rightarrow> error + string)
     \<Rightarrow> request \<Rightarrow> store \<Rightarrow> outcome" where
  "processVoice now random reply summarize rq st =
     (if q_transcript rq = [] then Failed BadRequest
      else
        let followUpCount = orCount (q_followUpCount rq);
            conversationId = nonEmpty (q_conversationId rq);
            conversation = getConversation st conversationId;
            conversationHistory =
              (case stored conversation of
                 None \<Rightarrow> orList (q_conversationHistory rq)
               | Some c \<Rightarrow> (case c_conversationHistory c of
                              None \<Rightarrow> orList (q_conversationHistory rq)
                            | Some h \<Rightarrow> h));
            adapterHistory =
              (case q_conversationHistory rq of None \<Rightarrow> Some conversationHistory | Some h \<Rightarrow> Some h)
        in case parseIntent (q_transcript rq) adapterHistory (q_followUpCount rq) reply of
             Inl e \<Rightarrow> Failed e
           | Inr intentResult \<Rightarrow>
               if conversation = Builtin then BuiltinWritten
               else
                 let (st1, cid1, conv1, ir1) =
                       mergeTurn now (generateConversationId now random) followUpCount st
                         conversationId (stored conversation) intentResult;
                     st2 = (if r_abort ir1 \<and> cid1 \<noteq> None then clearConversation st1 cid1 else st1);
                     cid2 = (if r_abort ir1 \<and> cid1 \<noteq> None then None else cid1);
                     aiResponse = orElse (r_followUpQuestion ir1) ''Understood'';
                     newHistory = conversationHistory @
                       [\<lparr> role = ''user'', content = q_transcript rq \<rparr>,
                        \<lparr> role = ''assistant'', content = aiResponse \<rparr>];
                     conv3 = map_option (recordExchange summarize followUpCount newHistory) conv1;
                     st3 = (case conv3 of None \<Rightarrow> st2 | Some c \<Rightarrow> saveConversation now st2 cid2 c);
                     history = (case conv3 of None \<Rightarrow> [] | Some c \<Rightarrow> orList (c_conversationHistory c))
                 in Answered st3
                      \<lparr> s_intent = r_intent ir1,
                        s_eventDetails = r_eventDetails ir1,
                        s_wishlistItemId = orNull (r_wishlistItemId ir1),
                        s_wishlistItemMatch = orNull (r_wishlistItemMatch ir1),
                        s_updates = orNull (r_updates ir1),
                        s_followUpQuestion = nonEmpty (r_followUpQuestion ir1),
                        s_missingInfo = r_missingInfo ir1,
                        s_confidence = orNumber (Some (r_confidence ir1)) (4 / 5),
                        s_readyToProcess = r_readyToProcess ir1,
                        s_abort = r_abort ir1,
                        s_abortMessage = nonEmpty (r_abortMessage ir1),
                        s_conversationHistory = history,
                        s_conversationId = cid2,
                        s_historyLength = length history div 2 \<rparr>)"

section \<open>The client's follow-up loop (\<open>VoiceAssistant\<close> in \<open>src/client/src/index.js\<close>)\<close>

text \<open>
  The component's state, as React holds it, and the ref \<open>conversationIdRef\<close>.
\<close>

record client =
  k_followUpCount :: int
  k_conversationHistory :: "message list"
  k_isInFollowUpLoop :: bool
  k_conversationId :: "string option"

text \<open>
  Every render runs the component function again and so creates \<open>startListening\<close>,
  \<open>transcribeAudio\<close> and \<open>handleVoiceInput\<close> anew; each of them refers to the others of
  its own render and to the state variables as that render read them. A \<open>closure\<close> is what
  the functions of one render see of the state. The ref is not part of it: it is read when
  the code runs.
\<close>

record closure =
  v_followUpCount :: int
  v_conversationHistory :: "message list"
  v_isInFollowUpLoop :: bool

definition render :: "client \<Rightarrow> closure" where
  "render k = \<lparr> v_followUpCount = k_followUpCount k,
     v_conversationHistory = k_conversationHistory k,
     v_isInFollowUpLoop = k_isInFollowUpLoop k \<rparr>"

text \<open>The body that \<open>handleVoiceInput\<close> posts to \<open>/api/voice/process\<close>.\<close>

definition clientRequest :: "closure \<Rightarrow> client \<Rightarrow> string \<Rightarrow> request" where
  "clientRequest v k transcriptText =
     \<lparr> q_transcript = transcriptText,
       q_conversationHistory = Some (v_conversationHistory v),
       q_followUpCount = Some (v_followUpCount v),
       q_conversationId = k_conversationId k \<rparr>"

text \<open>
  The client's \<open>clearConversation\<close>: it posts the id, if the ref holds one, to
  \<open>/conversation/clear\<close>, where the route clears the store under it, and empties the ref.
\<close>

definition clientClearConversation :: "client \<times> store \<Rightarrow> client \<times> store" where
  "clientClearConversation ks =
     (fst ks\<lparr> k_conversationId := None \<rparr>, clearConversation (snd ks) (k_conversationId (fst ks)))"

text \<open>
  A recording: how it ended, the text that the transcription returns for it, and what the
  server's collaborators answer in the request that follows. The recording ends by itself after
  twelve seconds, or the user clicks the button, which is \<open>stopListening\<close> of the latest
  render, called with the click event and hence with \<open>preserveContext\<close> false.
\<close>

datatype ending = AutoStop | ClickStop

record utterance =
  u_ending :: ending
  u_transcript :: string
  u_now :: int
  u_random :: string
  u_reply :: llmReply
  u_completion :: "message list \<Rightarrow> string option \<Rightarrow> string option"

definition stopListening :: "client \<Rightarrow> client" where
  "stopListening k =
     k\<lparr> k_isInFollowUpLoop := False, k_followUpCount := 0, k_conversationHistory := [] \<rparr>"

text \<open>
  \<open>handleVoiceInput\<close> of the render with closure \<open>v\<close>, on the state \<open>ks\<close> of client and
  server at the time it runs. The request and the guard \<open>followUpCount < 5\<close> read the
  closure; \<open>setFollowUpCount(prev => prev + 1)\<close> updates the state. The result says also
  whether \<open>startListening(true)\<close>, of the same render, is called once the question has been
  spoken. It is \<open>None\<close> when the server has written to a built-in. The resets on abort are
  those of the callback that runs when the abort message has been spoken. The handlers of an
  intent that is ready talk to other routes; their requests are not followed.
\<close>

definition handleVoiceInput ::
  "closure \<Rightarrow> utterance \<Rightarrow> string \<Rightarrow> client \<times> store \<Rightarrow> (client \<times> store \<times> bool) option" where
  "handleVoiceInput v u transcriptText ks =
     (case processVoice (u_now u) (u_random u) (u_reply u) (summarizeConversation (u_completion u))
             (clientRequest v (fst ks) transcriptText) (snd ks) of
        BuiltinWritten \<Rightarrow> None
      | Failed e \<Rightarrow> Some (fst ks\<lparr> k_isInFollowUpLoop := False \<rparr>, snd ks, False)
      | Answered st' resp \<Rightarrow>
          let k1 = fst ks\<lparr> k_conversationId := nonEmpty (s_conversationId resp),
                          k_conversationHistory := s_conversationHistory resp \<rparr>
          in if s_abort resp \<and> s_abortMessage resp \<noteq> None then
               let cleared = clientClearConversation (k1, st')
               in Some (fst cleared\<lparr> k_isInFollowUpLoop := False, k_followUpCount := 0,
                                     k_conversationHistory := [] \<rparr>, snd cleared, False)
             else if s_intent resp = ''needs_clarification'' \<and> s_followUpQuestion resp \<noteq> None
                     \<and> v_followUpCount v < 5 then
               Some (k1\<lparr> k_followUpCount := k_followUpCount k1 + 1, k_isInFollowUpLoop := True \<rparr>,
                     st', True)
             else if s_readyToProcess resp then
               Some (k1\<lparr> k_isInFollowUpLoop := False, k_followUpCount := 0,
                         k_conversationHistory := [] \<rparr>, st', False)
             else Some (k1, st', False))"

text \<open>
  \<open>transcribeAudio\<close> of the same render, for a recording that is not empty and that the
  transcription service accepts: on an empty transcript it asks the user to repeat and listens
  again if the closure's \<open>isInFollowUpLoop\<close> says so.
\<close>

definition transcribeAudio ::
  "closure \<Rightarrow> utterance \<Rightarrow> client \<times> store \<Rightarrow> (client \<times> store \<times> bool) option" where
  "transcribeAudio v u ks =
     (let transcriptText = trim (u_transcript u)
      in if transcriptText = [] then Some (fst ks, snd ks, v_isInFollowUpLoop v)
         else handleVoiceInput v u transcriptText ks)"

text \<open>
  \<open>startListening\<close> of the render with closure \<open>v\<close>, with what is said from then on: the
  recorder's \<open>onstop\<close> calls \<open>transcribeAudio\<close> of that render, whose
  \<open>handleVoiceInput\<close> calls \<open>startListening(true)\<close> of that render again after a follow-up
  question. Both calls of \<open>startListening\<close> in the component pass a truthy
  \<open>preserveContext\<close> (\<open>true\<close>, or the click event), so the reset under
  \<open>!preserveContext\<close> does not run. The guards at its head let it pass: the closure's
  \<open>status\<close> is not \<open>speaking\<close>, since the button is disabled while it is, and
  the recorder of the recording before is inactive. The browser records, and each recording
  has sound in it. When no new recording is started, what is said later is not heard.
\<close>

fun startListening :: "closure \<Rightarrow> client \<times> store \<Rightarrow> utterance list \<Rightarrow> (client \<times> store) option" where
  "startListening v ks [] = Some ks"
| "startListening v ks (u # us) =
     (case transcribeAudio v u
             (case u_ending u of AutoStop \<Rightarrow> ks | ClickStop \<Rightarrow> (stopListening (fst ks), snd ks)) of
        None \<Rightarrow> None
      | Some (k', st', again) \<Rightarrow> if again then startListening v (k', st') us else Some (k', st'))"

text \<open>
  A click on the microphone button while nothing is recorded: \<open>startListening\<close> of the latest
  render.
\<close>

definition clickStart :: "client \<times> store \<Rightarrow> utterance list \<Rightarrow> (client \<times> store) option" where
  "clickStart ks us = startListening (render (fst ks)) ks us"

definition newClient :: client where
  "newClient = \<lparr> k_followUpCount = 0, k_conversationHistory = [], k_isInFollowUpLoop = False,
     k_conversationId = None \<rparr>"

definition newStore :: store where
  "newStore = Map.empty"

text \<open>
  A reply that asks for clarification, and the recording number \<open>n\<close> of a dialogue, a minute
  after the one before, answered by that reply.
\<close>

definition askReply :: llmReply where
  "askReply = Reply \<lparr> p_intent = Some ''needs_clarification'',
     p_eventDetails = Some (noDetails\<lparr> d_title := JStr ''Lunch'' \<rparr>),
     p_wishlistItemId = JUndefined, p_wishlistItemMatch = JUndefined, p_updates = JUndefined,
     p_followUpQuestion = Some ''When?'', p_missingInfo = Some [''date''], p_confidence = None \<rparr>"

definition noCompletion :: "message list \<Rightarrow> string option \<Rightarrow> string option" where
  "noCompletion messages existingSummary = None"

definition ask :: "nat \<Rightarrow> utterance" where
  "ask n = \<lparr> u_ending = AutoStop, u_transcript = ''lunch'', u_now = 1732262400000 + 60000 * int n,
     u_random = ''0.k3x9q2ab'', u_reply = askReply, u_completion = noCompletion \<rparr>"

text \<open>
  A recording that ends by itself, is understood, and is answered by the model with the intent
  \<open>needs_clarification\<close>; and one whose answer brings event details as well.
\<close>

definition asking :: "utterance \<Rightarrow> bool" where
  "asking u =
     (u_ending u = AutoStop \<and> trim (u_transcript u) \<noteq> []
      \<and> (case u_reply u of Reply p \<Rightarrow> p_intent p = Some ''needs_clarification'' | _ \<Rightarrow> False))"

definition withDetails :: "utterance \<Rightarrow> bool" where
  "withDetails u =
     (case u_reply u of
        Reply p \<Rightarrow> hasMeaningfulEventDetails (orDetails (p_eventDetails p))
      | _ \<Rightarrow> False)"

text \<open>A history of ten messages.\<close>

definition tenMessages :: "message list" where
  "tenMessages = concat (replicate 5 [\<lparr> role = ''user'', content = ''lunch'' \<rparr>,
                                     \<lparr> role = ''assistant'', content = ''When?'' \<rparr>])"
section \<open>Dates\<close>

text \<open>
  A \<open>Date\<close> object is its time value: milliseconds since the epoch, or \<open>None\<close> for an
  invalid date (time value \<open>NaN\<close>). What the platform contributes is a record: how a string
  parses, the local calendar fields of an instant (year, month index from 0, day, hours,
  minutes), and the calendar day of \<open>toISOString\<close>. The functions below take it as a
  parameter.
\<close>

record dateLib =
  dl_parse :: "string \<Rightarrow> int option"
  dl_local :: "int \<Rightarrow> int \<times> int \<times> int \<times> int \<times> int"
  dl_isoDate :: "int \<Rightarrow> string"

text \<open>A field that holds a JSON scalar or a \<open>Date\<close> object.\<close>

datatype field = Val jsval | DateObj "int option"

fun truthyField :: "field \<Rightarrow> bool" where
  "truthyField (Val v) = truthy v"
| "truthyField (DateObj d) = True"

text \<open>\<open>new Date(x)\<close>.\<close>

fun newDate :: "dateLib \<Rightarrow> field \<Rightarrow> int option" where
  "newDate lib (Val (JStr s)) = dl_parse lib s"
| "newDate lib (Val (JNum n)) = Some n"
| "newDate lib (Val (JBool b)) = Some (if b then 1 else 0)"
| "newDate lib (Val JNull) = Some 0"
| "newDate lib (Val JUndefined) = None"
| "newDate lib (Val JNaN) = None"
| "newDate lib (DateObj d) = d"

subsection \<open>A platform in UTC, for the examples\<close>

text \<open>Days since the epoch of a civil date, and back (proleptic Gregorian calendar).\<close>

definition daysFromCivil :: "int \<Rightarrow> int \<Rightarrow> int \<Rightarrow> int" where
  "daysFromCivil y m d =
     (let y' = (if m \<le> 2 then y - 1 else y);
          era = y' div 400;
          yoe = y' - era * 400;
          doy = (153 * (if m > 2 then m - 3 else m + 9) + 2) div 5 + d - 1;
          doe = yoe * 365 + yoe div 4 - yoe div 100 + doy
      in era * 146097 + doe - 719468)"

definition civilFromDays :: "int \<Rightarrow> int \<times> int \<times> int" where
  "civilFromDays z =
     (let z' = z + 719468;
          era = z' div 146097;
          doe = z' - era * 146097;
          yoe = (doe - doe div 1460 + doe div 36524 - doe div 146096) div 365;
          doy = doe - (365 * yoe + yoe div 4 - yoe div 100);
          mp = (5 * doy + 2) div 153;
          d = doy - (153 * mp + 2) div 5 + 1;
          m = (if mp < 10 then mp + 3 else mp - 9);
          y = yoe + era * 400
      in (if m \<le> 2 then y + 1 else y, m, d))"

definition isDigit :: "char \<Rightarrow> bool" where
  "isDigit c = (let n = (of_char c :: nat) in 48 \<le> n \<and> n \<le> 57)"

definition digitsToNat :: "string \<Rightarrow> nat" where
  "digitsToNat s = foldl (\<lambda>acc c. 10 * acc + (of_char c - 48)) 0 s"

definition padStart2 :: "string \<Rightarrow> string" where
  "padStart2 s = replicate (2 - length s) CHR ''0'' @ s"

definition padStart4 :: "string \<Rightarrow> string" where
  "padStart4 s = replicate (4 - length s) CHR ''0'' @ s"

definition utcLocal :: "int \<Rightarrow> int \<times> int \<times> int \<times> int \<times> int" where
  "utcLocal t =
     (let (y, m, d) = civilFromDays (t div 86400000);
          r = t mod 86400000
      in (y, m - 1, d, r div 3600000, (r mod 3600000) div 60000))"

definition utcIsoDate :: "int \<Rightarrow> string" where
  "utcIsoDate t =
     (let (y, m, d) = civilFromDays (t div 86400000)
      in padStart4 (showInt y) @ ''-'' @ padStart2 (showInt m) @ ''-'' @ padStart2 (showInt d))"

text \<open>
  The two string shapes of the examples: \<open>YYYY-MM-DD\<close> and \<open>YYYY-MM-DDTHH:MM:SSZ\<close>.
  Every other string is an invalid date here.
\<close>

definition isoDay :: "string \<Rightarrow> int option" where
  "isoDay s =
     (if length s = 10 \<and> list_all isDigit (take 4 s) \<and> s ! 4 = CHR ''-''
         \<and> list_all isDigit (take 2 (drop 5 s)) \<and> s ! 7 = CHR ''-''
         \<and> list_all isDigit (drop 8 s)
      then let y = int (digitsToNat (take 4 s));
               m = int (digitsToNat (take 2 (drop 5 s)));
               d = int (digitsToNat (drop 8 s))
           in if 1 \<le> m \<and> m \<le> 12 \<and> 1 \<le> d \<and> d \<le> 31 then Some (daysFromCivil y m d) else None
      else None)"

definition isoClock :: "string \<Rightarrow> int option" where
  "isoClock s =
     (if length s = 10 \<and> s ! 0 = CHR ''T'' \<and> list_all isDigit (take 2 (drop 1 s)) \<and> s ! 3 = CHR '':''
         \<and> list_all isDigit (take 2 (drop 4 s)) \<and> s ! 6 = CHR '':''
         \<and> list_all isDigit (take 2 (drop 7 s)) \<and> s ! 9 = CHR ''Z''
      then let h = int (digitsToNat (take 2 (drop 1 s)));
               mi = int (digitsToNat (take 2 (drop 4 s)));
               sec = int (digitsToNat (take 2 (drop 7 s)))
           in if h \<le> 23 \<and> mi \<le> 59 \<and> sec \<le> 59 then Some ((h * 60 + mi) * 60000 + sec * 1000) else None
      else None)"

definition utcParse :: "string \<Rightarrow> int option" where
  "utcParse s =
     (case isoDay (take 10 s) of
        None \<Rightarrow> None
      | Some days \<Rightarrow>
          (if length s = 10 then Some (days * 86400000)
           else (case isoClock (drop 10 s) of
                   None \<Rightarrow> None
                 | Some ms \<Rightarrow> Some (days * 86400000 + ms))))"

definition utcLib :: dateLib where
  "utcLib = \<lparr> dl_parse = utcParse, dl_local = utcLocal, dl_isoDate = utcIsoDate \<rparr>"







section \<open>Event normalisation (\<open>src/server/routes/voice.js\<close>)\<close>

text \<open>
  A raw calendar event, with the fields that normalisation and the free-slot search read;
  \<open>date\<close> and \<open>endDate\<close> may hold a \<open>Date\<close> object. A \<open>null\<close> entry of the
  events array is \<open>None\<close>.
\<close>

record event =
  e_id :: jsval
  e_title :: jsval
  e_allDay :: jsval
  e_date :: field
  e_time :: jsval
  e_endDate :: field
  e_duration :: jsval

text \<open>The exceptions that the built-ins raise.\<close>

datatype exn = TypeError | RangeError

text \<open>
  \<open>event.date?.includes('T')\<close>: \<open>undefined\<close> (\<open>None\<close>) on a missing date, the
  substring test on a string, and a \<open>TypeError\<close> on every other value, which has no
  \<open>includes\<close> method to call.
\<close>

fun dateIncludesT :: "field \<Rightarrow> exn + bool option" where
  "dateIncludesT (Val JUndefined) = Inr None"
| "dateIncludesT (Val JNull) = Inr None"
| "dateIncludesT (Val (JStr s)) = Inr (Some (CHR ''T'' \<in> set s))"
| "dateIncludesT (Val v) = Inl TypeError"
| "dateIncludesT (DateObj d) = Inl TypeError"

definition isDateString :: "field \<Rightarrow> bool" where
  "isDateString f = (case f of Val (JStr s) \<Rightarrow> True | _ \<Rightarrow> False)"

text \<open>The two regular expressions: \<open>/^\d{4}-\d{2}-\d{2}$/\<close> and \<open>/^\d{1,2}:\d{2}$/\<close>.\<close>

definition matchesYMD :: "string \<Rightarrow> bool" where
  "matchesYMD s =
     (length s = 10 \<and> list_all isDigit (take 4 s) \<and> s ! 4 = CHR ''-''
      \<and> list_all isDigit (take 2 (drop 5 s)) \<and> s ! 7 = CHR ''-'' \<and> list_all isDigit (drop 8 s))"

definition matchesHM :: "string \<Rightarrow> bool" where
  "matchesHM s =
     (let h = takeWhile (\<lambda>c. c \<noteq> CHR '':'') s; m = drop (Suc (length h)) s
      in (length h = 1 \<or> length h = 2) \<and> list_all isDigit h \<and> length s = length h + 3
         \<and> list_all isDigit m)"

text \<open>
  A number that may be \<open>NaN\<close> (\<open>None\<close>), as the getters of an invalid date return, and its
  rendering by \<open>toString().padStart(2, '0')\<close> or in a template literal.
\<close>

definition showNum :: "int option \<Rightarrow> string" where
  "showNum n = (case n of None \<Rightarrow> ''NaN'' | Some i \<Rightarrow> showInt i)"

definition localDateStr :: "dateLib \<Rightarrow> int option \<Rightarrow> string" where
  "localDateStr lib dateTime =
     (let year = map_option (\<lambda>t. fst (dl_local lib t)) dateTime;
          month = padStart2 (showNum (map_option (\<lambda>t. fst (snd (dl_local lib t)) + 1) dateTime));
          day = padStart2 (showNum (map_option (\<lambda>t. fst (snd (snd (dl_local lib t)))) dateTime))
      in showNum year @ ''-'' @ month @ ''-'' @ day)"

definition localTimeStr :: "dateLib \<Rightarrow> int option \<Rightarrow> string" where
  "localTimeStr lib dateTime =
     (let hours = padStart2 (showNum (map_option (\<lambda>t. fst (snd (snd (snd (dl_local lib t))))) dateTime));
          minutes = padStart2 (showNum (map_option (\<lambda>t. snd (snd (snd (snd (dl_local lib t))))) dateTime))
      in hours @ '':'' @ minutes)"

text \<open>\<open>Math.round((end - start) / 60000)\<close>: halves round up; \<open>NaN\<close> when a date is invalid.\<close>

definition minutesBetween :: "int option \<Rightarrow> int option \<Rightarrow> jsval" where
  "minutesBetween start end =
     (case (start, end) of
        (Some s, Some e) \<Rightarrow> JNum ((e - s + 30000) div 60000)
      | _ \<Rightarrow> JNaN)"

record normalized =
  n_source :: event
  n_date :: string
  n_time :: jsval
  n_duration :: jsval

text \<open>
  The third branch (separate date and time fields). The date: a string in \<open>YYYY-MM-DD\<close>
  form as it is, anything else through \<open>new Date(...).toISOString()\<close>, which raises a
  \<open>RangeError\<close> on an invalid date. The time: \<open>H:MM\<close> or \<open>HH:MM\<close> zero-padded,
  anything else as it is.
\<close>

definition mockDateStr :: "dateLib \<Rightarrow> jsval \<Rightarrow> exn + string" where
  "mockDateStr lib v =
     (if (case v of JStr s \<Rightarrow> matchesYMD s | _ \<Rightarrow> False) then Inr (toStr v)
      else (case newDate lib (Val v) of
              None \<Rightarrow> Inl RangeError
            | Some t \<Rightarrow> Inr (dl_isoDate lib t)))"

definition mockTimeStr :: "jsval \<Rightarrow> jsval" where
  "mockTimeStr t =
     (if (case t of JStr s \<Rightarrow> matchesHM s | _ \<Rightarrow> False) then
        let h = takeWhile (\<lambda>c. c \<noteq> CHR '':'') (toStr t);
            m = drop (Suc (length h)) (toStr t)
        in JStr (padStart2 (showNat (digitsToNat h)) @ '':'' @ padStart2 (showNat (digitsToNat m)))
      else t)"

definition fromDateTime :: "dateLib \<Rightarrow> event \<Rightarrow> int option \<Rightarrow> jsval \<Rightarrow> normalized" where
  "fromDateTime lib event dateTime duration =
     \<lparr> n_source = event, n_date = localDateStr lib dateTime,
       n_time = JStr (localTimeStr lib dateTime), n_duration = duration \<rparr>"

definition isDateObject :: "field \<Rightarrow> bool" where
  "isDateObject f = (case f of DateObj d \<Rightarrow> True | Val v \<Rightarrow> False)"

definition fieldValue :: "field \<Rightarrow> jsval" where
  "fieldValue f = (case f of Val v \<Rightarrow> v | DateObj d \<Rightarrow> JUndefined)"

text \<open>
  The branches of the callback once the all-day guard has let the event through; \<open>inc\<close>
  is the value of \<open>event.date?.includes('T')\<close>.
\<close>

definition normalizeTimed :: "dateLib \<Rightarrow> event \<Rightarrow> bool option \<Rightarrow> exn + normalized option" where
  "normalizeTimed lib event inc =
     (if truthyField (e_date event) \<and> isDateString (e_date event) \<and> inc = Some True then
        Inr (Some (fromDateTime lib event (newDate lib (e_date event))
               (if truthyField (e_endDate event)
                then minutesBetween (newDate lib (e_date event)) (newDate lib (e_endDate event))
                else js_or (e_duration event) (JNum 60))))
      else if isDateObject (e_date event) then
        Inr (Some (fromDateTime lib event (newDate lib (e_date event)) (js_or (e_duration event) (JNum 60))))
      else if truthyField (e_date event) \<and> truthy (e_time event) then
        (case mockDateStr lib (fieldValue (e_date event)) of
           Inl x \<Rightarrow> Inl x
         | Inr dateStr \<Rightarrow>
             Inr (Some \<lparr> n_source = event, n_date = dateStr, n_time = mockTimeStr (e_time event),
                          n_duration = js_or (e_duration event) (JNum 60) \<rparr>))
      else Inr None)"

text \<open>
  The callback of \<open>events.map\<close>: \<open>Inr None\<close> is the \<open>null\<close> it returns for an event to
  drop, \<open>Inl\<close> an exception that leaves the callback. The guard is
  \<open>event.allDay || (!event.date?.includes('T') && !event.time)\<close>, evaluated left to right.
\<close>

definition normalizeEvent :: "dateLib \<Rightarrow> event option \<Rightarrow> exn + normalized option" where
  "normalizeEvent lib ev =
     (case ev of
        None \<Rightarrow> Inl TypeError
      | Some event \<Rightarrow>
          (if truthy (e_allDay event) then Inr None
           else (case dateIncludesT (e_date event) of
                   Inl x \<Rightarrow> Inl x
                 | Inr inc \<Rightarrow>
                     (if inc \<noteq> Some True \<and> \<not> truthy (e_time event) then Inr None
                      else normalizeTimed lib event inc))))"

text \<open>\<open>events.map(...).filter(event => event !== null)\<close>; the first exception ends the call.\<close>

fun normalizeEventsForConflictCheck :: "dateLib \<Rightarrow> event option list \<Rightarrow> exn + normalized list" where
  "normalizeEventsForConflictCheck lib [] = Inr []"
| "normalizeEventsForConflictCheck lib (ev # events) =
     (case normalizeEvent lib ev of
        Inl x \<Rightarrow> Inl x
      | Inr r \<Rightarrow>
          (case normalizeEventsForConflictCheck lib events of
             Inl x \<Rightarrow> Inl x
           | Inr rs \<Rightarrow> Inr (case r of None \<Rightarrow> rs | Some n \<Rightarrow> n # rs)))"







definition noEvent :: event where
  "noEvent = \<lparr> e_id = JUndefined, e_title = JUndefined, e_allDay = JUndefined, e_date = Val JUndefined,
     e_time = JUndefined, e_endDate = Val JUndefined, e_duration = JUndefined \<rparr>"

section \<open>Free slots (\<open>findFreeSlots\<close> in \<open>src/server/services/documentProcessor.js\<close>)\<close>

text \<open>
  A \<open>null\<close> entry of the events array makes the first callback raise a \<open>TypeError\<close>.
  Instants are milliseconds since the epoch. The search window's \<open>startDate\<close> and
  \<open>endDate\<close> are valid dates or \<open>null\<close> (\<open>None\<close>); \<open>clock\<close> is what \<open>new Date()\<close>
  reads. The server's zone is a whole number of hours from UTC with no change of offset in
  the window, so that \<open>setMinutes(0, 0, 0)\<close> is rounding down to a multiple of an hour and
  \<open>setDate(getDate() + n)\<close> adds \<open>n\<close> days of 24 hours.
\<close>

record options =
  o_minDuration :: "rat option"
  o_daysToCheck :: "int option"

record busy =
  b_start :: int
  b_end :: "int option"
  b_title :: jsval

record freeSlot =
  f_startTime :: int
  f_endTime :: int
  f_duration :: rat
  f_date :: string

definition floorHour :: "int \<Rightarrow> int" where
  "floorHour t = t - t mod 3600000"

text \<open>
  The \<open>map\<close> and \<open>filter\<close> that build \<open>normalizedEvents\<close>: an event whose start is
  invalid or before \<open>now\<close> is dropped; a missing end is one hour after the start.
\<close>

definition toBusy :: "dateLib \<Rightarrow> int \<Rightarrow> event \<Rightarrow> busy option" where
  "toBusy lib now event =
     (let date = newDate lib (e_date event);
          eventEndDate = (if truthyField (e_endDate event) then newDate lib (e_endDate event)
                          else map_option (\<lambda>t. t + 60 * 60 * 1000) date)
      in case date of
           None \<Rightarrow> None
         | Some start \<Rightarrow>
             if start \<ge> now then Some \<lparr> b_start = start, b_end = eventEndDate, b_title = e_title event \<rparr>
             else None)"

definition gapSlot :: "dateLib \<Rightarrow> rat \<Rightarrow> int \<Rightarrow> int \<Rightarrow> freeSlot list" where
  "gapSlot lib minDuration currentTime until =
     (if currentTime < until then
        let gapDuration = of_int (until - currentTime) / (1000 * 60)
        in if gapDuration \<ge> minDuration then
             [\<lparr> f_startTime = currentTime, f_endTime = until, f_duration = gapDuration,
                f_date = dl_isoDate lib currentTime \<rparr>]
           else []
      else [])"

text \<open>
  The body of \<open>forEach\<close> on the state (cursor, slots so far); the cursor is \<open>None\<close> when
  it is an invalid date.
\<close>

definition walk :: "dateLib \<Rightarrow> rat \<Rightarrow> busy \<Rightarrow> int option \<times> freeSlot list \<Rightarrow> int option \<times> freeSlot list" where
  "walk lib minDuration event st =
     (let freeSlots = (case fst st of
                         None \<Rightarrow> snd st
                       | Some currentTime \<Rightarrow> snd st @ gapSlot lib minDuration currentTime (b_start event))
      in (map_option (\<lambda>e. floorHour e + 3600000) (b_end event), freeSlots))"

definition findFreeSlots ::
  "dateLib \<Rightarrow> int \<Rightarrow> event option list \<Rightarrow> int option \<Rightarrow> int option \<Rightarrow> options \<Rightarrow> exn + freeSlot list" where
  "findFreeSlots lib clock events startDate endDate opts =
     (let minDuration = (case o_minDuration opts of None \<Rightarrow> 120 | Some m \<Rightarrow> m);
          daysToCheck = (case o_daysToCheck opts of None \<Rightarrow> 14 | Some d \<Rightarrow> d);
          now = (case startDate of None \<Rightarrow> clock | Some s \<Rightarrow> s);
          searchEndDate = (case endDate of None \<Rightarrow> now + daysToCheck * 86400000 | Some e \<Rightarrow> e)
      in case those events of
           None \<Rightarrow> Inl TypeError
         | Some objects \<Rightarrow>
             let normalizedEvents = sort_key b_start (List.map_filter (toBusy lib now) objects);
                 final = fold (walk lib minDuration) normalizedEvents (Some (floorHour now), [])
             in Inr (case fst final of
                       None \<Rightarrow> snd final
                     | Some currentTime \<Rightarrow> snd final @ gapSlot lib minDuration currentTime searchEndDate))"

definition defaults :: options where
  "defaults = \<lparr> o_minDuration = None, o_daysToCheck = None \<rparr>"

text \<open>A slot and a busy interval overlap.\<close>

definition slotOverlaps :: "freeSlot \<Rightarrow> int \<Rightarrow> int \<Rightarrow> bool" where
  "slotOverlaps slot start end = (f_startTime slot < end \<and> start < f_endTime slot)"

text \<open>
  Sample events: a long meeting, a short one inside it, and an all-day event as the calendar
  route delivers it (date-only start and end, \<open>allDay\<close> set).
\<close>

definition longMeeting :: event where
  "longMeeting = noEvent\<lparr> e_title := JStr ''Workshop'', e_date := Val (JStr ''2024-11-22T10:00:00Z''),
     e_endDate := Val (JStr ''2024-11-22T18:00:00Z'') \<rparr>"

definition shortMeeting :: event where
  "shortMeeting = noEvent\<lparr> e_title := JStr ''Call'', e_date := Val (JStr ''2024-11-22T11:00:00Z''),
     e_endDate := Val (JStr ''2024-11-22T12:00:00Z'') \<rparr>"




section \<open>Conflict detection (services/calendarConflictService)\<close>

text \<open>
  A candidate or normalised event as the conflict check reads it: the calendar day, the local
  time \<open>HH:MM\<close> in minutes after midnight, and the duration in minutes, 60 when unset.
\<close>

record timed =
  t_date :: string
  t_time :: nat
  t_duration :: "nat option"

definition hhmm :: "nat \<Rightarrow> nat \<Rightarrow> nat" where
  "hhmm h m = 60 * h + m"

definition startOf :: "timed \<Rightarrow> nat" where
  "startOf e = t_time e"

definition endOf :: "timed \<Rightarrow> nat" where
  "endOf e = t_time e + (case t_duration e of None \<Rightarrow> 60 | Some d \<Rightarrow> d)"

definition conflictsWith :: "timed \<Rightarrow> timed \<Rightarrow> bool" where
  "conflictsWith a b = (t_date a = t_date b \<and> startOf a < endOf b \<and> startOf b < endOf a)"

record conflictResult =
  hasConflict :: bool
  conflictingEvent :: "timed option"
  conflicts :: "timed list"

text \<open>
  Modelled from the spec: \<open>checkConflict\<close> of \<open>calendarConflictService\<close>, which
  \<open>routes/voice.js\<close> requires and calls; the service's own source file is missing from the
  repository. The specification's words:
  two half-open intervals \<open>[start, start + duration)\<close> on the same calendar day conflict iff
  \<open>startA < endB && startB < endA\<close>; the result is \<open>hasConflict\<close>, the first conflicting
  event, and the complete list of overlapping events.
\<close>

definition checkConflict :: "timed \<Rightarrow> timed list \<Rightarrow> conflictResult" where
  "checkConflict candidate normalizedEvents =
     (let overlapping = filter (conflictsWith candidate) normalizedEvents
      in \<lparr> hasConflict = (overlapping \<noteq> []),
           conflictingEvent = (case overlapping of [] \<Rightarrow> None | e # es \<Rightarrow> Some e),
           conflicts = overlapping \<rparr>)"

text \<open>The scenarios of the specification.\<close>

definition candidate2pm :: timed where
  "candidate2pm = \<lparr> t_date = ''2024-11-22'', t_time = hhmm 14 0, t_duration = Some 60 \<rparr>"

definition existingHalfPast :: timed where
  "existingHalfPast = \<lparr> t_date = ''2024-11-22'', t_time = hhmm 14 30, t_duration = Some 30 \<rparr>"

definition existing3pm :: timed where
  "existing3pm = \<lparr> t_date = ''2024-11-22'', t_time = hhmm 15 0, t_duration = None \<rparr>"
section \<open>Properties of the task cache\<close>

lemma addKeys_set: "addKeys tasks ks = ks \<union> {k. \<exists>t \<in> set tasks. taskKey t = Some k}"
  unfolding addKeys_def
  by (induction tasks arbitrary: ks) (auto split: option.splits)

lemma addKeys_idem: "addKeys tasks (addKeys tasks ks) = addKeys tasks ks"
  by (auto simp: addKeys_set)

lemma filter_notCompleted_idem:
  "filter (notCompleted ks) (filter (notCompleted ks) xs) = filter (notCompleted ks) xs"
  by simp

text \<open>
  C7. Marking the same task list completed twice in a row leaves, for every event id, the same
  remaining tasks and the same completed keys as marking it once; reads through
  \<open>getRemainingTasks\<close> and \<open>getRemainingCount\<close> cannot tell the two apart.
\<close>

theorem markTasksCompleted_idempotent:
  "map_option remainingTasks (markTasksCompleted now2 eventId S (markTasksCompleted now1 eventId S c) k)
     = map_option remainingTasks (markTasksCompleted now1 eventId S c k)
   \<and> map_option completedTaskKeys (markTasksCompleted now2 eventId S (markTasksCompleted now1 eventId S c) k)
     = map_option completedTaskKeys (markTasksCompleted now1 eventId S c k)
   \<and> getRemainingTasks other (markTasksCompleted now2 eventId S (markTasksCompleted now1 eventId S c))
     = getRemainingTasks other (markTasksCompleted now1 eventId S c)
   \<and> getRemainingCount other (markTasksCompleted now2 eventId S (markTasksCompleted now1 eventId S c))
     = getRemainingCount other (markTasksCompleted now1 eventId S c)"
  by (auto simp: markTasksCompleted_def getRemainingTasks_def getRemainingCount_def Let_def
        addKeys_idem split: option.splits)

lemma truthy_cloneVal: "truthy (cloneVal v) = truthy v"
  by (cases v) auto

lemma toStr_cloneVal: "truthy v \<Longrightarrow> toStr (cloneVal v) = toStr v"
  by (cases v) auto

lemma fallbackPart_cloneVal: "fallbackPart (cloneVal v) = fallbackPart v"
  by (cases v) (auto simp: fallbackPart_def js_or_def)

lemma taskKey_clone: "taskKey (map_option cloneTask t) = taskKey t"
  by (cases t) (auto simp: taskKey_def cloneTask_def truthy_cloneVal toStr_cloneVal fallbackPart_cloneVal)

lemma notCompleted_clone: "notCompleted ks (map_option cloneTask t) = notCompleted ks t"
  by (simp add: notCompleted_def taskKey_clone)

lemma cacheInv_empty: "cacheInv Map.empty"
  by (simp add: cacheInv_def)

lemma cacheInv_set: "cacheInv c \<Longrightarrow> cacheInv (setRemainingTasks now eventId tasks c)"
  by (auto simp: cacheInv_def setRemainingTasks_def Let_def split: option.splits if_splits)
     (auto simp: notCompleted_def split: option.splits)

lemma cacheInv_mark: "cacheInv c \<Longrightarrow> cacheInv (markTasksCompleted now eventId tasks c)"
  by (auto simp: cacheInv_def markTasksCompleted_def Let_def split: option.splits if_splits)

lemma cacheInv_clear: "cacheInv c \<Longrightarrow> cacheInv (clear eventId c)"
  by (auto simp: cacheInv_def clear_def)

lemma cacheInv_apply: "cacheInv c \<Longrightarrow> cacheInv (apply_op (now, x) c)"
  by (cases x)
     (simp_all add: cacheInv_set cacheInv_mark cacheInv_clear clearAll_def cacheInv_empty)

lemma cacheInv_run: "cacheInv c \<Longrightarrow> cacheInv (run ops c)"
  unfolding run_def by (induction ops arbitrary: c) (auto simp: cacheInv_apply)

lemma hasCompleted_apply:
  "hasCompleted key k c \<Longrightarrow> \<not> clears key x \<Longrightarrow> hasCompleted key k (apply_op (now, x) c)"
  by (cases x)
     (auto simp: hasCompleted_def setRemainingTasks_def markTasksCompleted_def clear_def Let_def
        addKeys_set split: option.splits if_splits)

lemma hasCompleted_run:
  "hasCompleted key k c \<Longrightarrow> \<forall>p \<in> set ops. \<not> clears key (snd p) \<Longrightarrow> hasCompleted key k (run ops c)"
  unfolding run_def by (induction ops arbitrary: c) (auto simp: hasCompleted_apply)

lemma hasCompleted_mark:
  "truthy eventId \<Longrightarrow> t \<in> set S \<Longrightarrow> taskKey t = Some k
     \<Longrightarrow> hasCompleted (toStr eventId) k (markTasksCompleted now eventId S c)"
  by (auto simp: hasCompleted_def markTasksCompleted_def Let_def addKeys_set split: option.splits)

lemma set_after_completed:
  assumes "truthy eventId" "hasCompleted (toStr eventId) k c"
  shows "\<exists>ts. getRemainingTasks eventId (setRemainingTasks now eventId T c) = Some ts
           \<and> (\<forall>t' \<in> set ts. taskKey t' \<noteq> Some k)"
  using assms
  by (auto simp: hasCompleted_def getRemainingTasks_def setRemainingTasks_def Let_def
        deepCloneTasks_def taskKey_clone notCompleted_def split: option.splits)

text \<open>
  C2 (amended). After any sequence of cache operations from the empty cache, no entry's
  remaining list holds a task whose key is among that entry's completed keys. And a task passed
  to \<open>markTasksCompleted\<close> for an event is filtered out by every later
  \<open>setRemainingTasks\<close> for that event, as long as no \<open>clear\<close> of the event (and no
  \<open>clearAll\<close>) came in between: clearing is a full reset that forgets the completed keys.
\<close>

theorem taskCache_never_resurrects:
  "(\<forall>key e t k. run ops newTaskCache key = Some e \<and> t \<in> set (remainingTasks e) \<and> taskKey t = Some k
        \<longrightarrow> k \<notin> completedTaskKeys e)
   \<and> (truthy eventId \<and> t \<in> set S \<and> taskKey t = Some k \<and> (\<forall>p \<in> set mid. \<not> clears (toStr eventId) (snd p))
        \<longrightarrow> (\<exists>ts. getRemainingTasks eventId
                    (setRemainingTasks now' eventId T
                       (run mid (markTasksCompleted now eventId S (run pre newTaskCache)))) = Some ts
                  \<and> (\<forall>t' \<in> set ts. taskKey t' \<noteq> Some k)))"
proof (intro conjI allI impI)
  fix key e t k
  assume a: "run ops newTaskCache key = Some e \<and> t \<in> set (remainingTasks e) \<and> taskKey t = Some k"
  have "cacheInv (run ops newTaskCache)"
    by (simp add: newTaskCache_def cacheInv_run cacheInv_empty)
  with a have "notCompleted (completedTaskKeys e) t"
    unfolding cacheInv_def by blast
  with a show "k \<notin> completedTaskKeys e"
    by (simp add: notCompleted_def)
next
  assume a: "truthy eventId \<and> t \<in> set S \<and> taskKey t = Some k
    \<and> (\<forall>p \<in> set mid. \<not> clears (toStr eventId) (snd p))"
  then have "hasCompleted (toStr eventId) k (markTasksCompleted now eventId S (run pre newTaskCache))"
    using hasCompleted_mark by blast
  with a have "hasCompleted (toStr eventId) k
      (run mid (markTasksCompleted now eventId S (run pre newTaskCache)))"
    using hasCompleted_run by blast
  with a show "\<exists>ts. getRemainingTasks eventId
                    (setRemainingTasks now' eventId T
                       (run mid (markTasksCompleted now eventId S (run pre newTaskCache)))) = Some ts
                  \<and> (\<forall>t' \<in> set ts. taskKey t' \<noteq> Some k)"
    using set_after_completed by blast
qed

lemmas cache_eval = getRemainingTasks_def getRemainingCount_def markTasksCompleted_def
  setRemainingTasks_def newTaskCache_def deepCloneTasks_def cloneTask_def addKeys_def
  notCompleted_def taskKey_def trim_def toLowerCase_def lowerChar_def isSpace_def
  taskA_def taskB_def emptyTask_def eventE_def

text \<open>
  C2 as stated fails across a \<open>clear\<close>: task A is marked completed, the event is cleared, and
  the next \<open>setRemainingTasks\<close> stores A again.
\<close>

theorem taskCache_resurrects_after_clear:
  "getRemainingTasks eventE
     (run [(1, MarkTasksCompleted eventE [Some taskA]), (2, Clear eventE),
           (3, SetRemainingTasks eventE [Some taskA, Some taskB])] newTaskCache)
   = Some [Some taskA, Some taskB]"
  by (simp add: cache_eval run_def clear_def)

text \<open>
  Scenario 3 of the specification, as an instance of the theorem: A and B stored, A marked,
  then A, B, C stored again; B and C remain.
\<close>

theorem taskCache_never_resurrects_witness:
  "(\<exists>e. run [(0, SetRemainingTasks eventE [Some taskA, Some taskB]),
              (1, MarkTasksCompleted eventE [Some taskA])] newTaskCache ''evt-1'' = Some e
       \<and> remainingTasks e = [Some taskB] \<and> ''task:book venue'' \<notin> completedTaskKeys e)
   \<and> getRemainingTasks eventE
     (setRemainingTasks 3 eventE [Some taskA, Some taskB, Some taskC]
        (run [(2, GetRemainingCount eventE)]
           (markTasksCompleted 1 eventE [Some taskA]
              (run [(0, SetRemainingTasks eventE [Some taskA, Some taskB])] newTaskCache))))
   = Some [Some taskB, Some taskC]
   \<and> taskKey (Some taskA) = Some ''task:buy gift''
   \<and> (\<exists>ts. getRemainingTasks eventE
     (setRemainingTasks 3 eventE [Some taskA, Some taskB, Some taskC]
        (run [(2, GetRemainingCount eventE)]
           (markTasksCompleted 1 eventE [Some taskA]
              (run [(0, SetRemainingTasks eventE [Some taskA, Some taskB])] newTaskCache)))) = Some ts
      \<and> list_all (\<lambda>t'. taskKey t' \<noteq> Some ''task:buy gift'') ts)"
proof -
  let ?ops = "[(0, SetRemainingTasks eventE [Some taskA, Some taskB]),
              (1, MarkTasksCompleted eventE [Some taskA])]"
  note inst = taskCache_never_resurrects
    [of ?ops eventE "Some taskA" "[Some taskA]" "''task:buy gift''" "[(2, GetRemainingCount eventE)]"
        3 "[Some taskA, Some taskB, Some taskC]" 1 "[(0, SetRemainingTasks eventE [Some taskA, Some taskB])]"]
  have k: "taskKey (Some taskA) = Some ''task:buy gift''"
    by code_simp
  have kb: "taskKey (Some taskB) = Some ''task:book venue''"
    by code_simp
  have "\<exists>e. run ?ops newTaskCache ''evt-1'' = Some e \<and> remainingTasks e = [Some taskB]"
    by (simp add: cache_eval run_def)
  then obtain e where e: "run ?ops newTaskCache ''evt-1'' = Some e" "remainingTasks e = [Some taskB]"
    by blast
  with inst kb have "''task:book venue'' \<notin> completedTaskKeys e"
    by (metis list.set_intros(1))
  with e have inv: "\<exists>e. run ?ops newTaskCache ''evt-1'' = Some e
       \<and> remainingTasks e = [Some taskB] \<and> ''task:book venue'' \<notin> completedTaskKeys e"
    by blast
  have ev: "getRemainingTasks eventE
     (setRemainingTasks 3 eventE [Some taskA, Some taskB, Some taskC]
        (run [(2, GetRemainingCount eventE)]
           (markTasksCompleted 1 eventE [Some taskA]
              (run [(0, SetRemainingTasks eventE [Some taskA, Some taskB])] newTaskCache))))
   = Some [Some taskB, Some taskC]"
    by (simp add: cache_eval run_def taskC_def)
  have pre: "truthy eventE \<and> Some taskA \<in> set [Some taskA] \<and> taskKey (Some taskA) = Some ''task:buy gift''
      \<and> (\<forall>p \<in> set [(2::int, GetRemainingCount eventE)]. \<not> clears (toStr eventE) (snd p))"
    using k by (simp add: eventE_def)
  from inst pre
  have "\<exists>ts. getRemainingTasks eventE
     (setRemainingTasks 3 eventE [Some taskA, Some taskB, Some taskC]
        (run [(2, GetRemainingCount eventE)]
           (markTasksCompleted 1 eventE [Some taskA]
              (run [(0, SetRemainingTasks eventE [Some taskA, Some taskB])] newTaskCache)))) = Some ts
      \<and> list_all (\<lambda>t'. taskKey t' \<noteq> Some ''task:buy gift'') ts"
    by (simp add: list_all_iff)
  with inv k ev show ?thesis by blast
qed

lemma cloneVal_idem: "cloneVal (cloneVal v) = cloneVal v"
  by (cases v) auto

lemma cloneTask_idem: "cloneTask (cloneTask t) = cloneTask t"
  by (simp add: cloneTask_def cloneVal_idem)

lemma deepCloneTasks_idem: "deepCloneTasks (deepCloneTasks ts) = deepCloneTasks ts"
  by (simp add: deepCloneTasks_def option.map_comp comp_def cloneTask_idem)

lemma deepCloneTasks_filter:
  "deepCloneTasks (filter (notCompleted ks) ts) = filter (notCompleted ks) (deepCloneTasks ts)"
  by (simp add: deepCloneTasks_def filter_map comp_def notCompleted_clone)

text \<open>
  C10 (amended). \<open>markTasksCompleted\<close> on an event id without an entry never fails. With a
  truthy id and a non-empty task array it creates the entry: no remaining tasks, the keys of the
  given tasks completed. The count read stays 0, but \<open>getRemainingTasks\<close> now returns the
  empty list instead of \<open>null\<close>, and a later \<open>setRemainingTasks\<close> drops the tasks that
  were marked. With a falsy id or an empty array the call changes nothing. Other entries are
  untouched.
\<close>

theorem markTasksCompleted_missing_entry:
  "c (toStr eventId) = None \<longrightarrow>
     (truthy eventId \<and> tasks \<noteq> [] \<longrightarrow>
        markTasksCompleted now eventId tasks c (toStr eventId)
          = Some \<lparr> remainingTasks = [], completedTaskKeys = {k. \<exists>t \<in> set tasks. taskKey t = Some k},
                   createdAt = now, updatedAt = now \<rparr>
        \<and> getRemainingTasks eventId (markTasksCompleted now eventId tasks c) = Some []
        \<and> getRemainingCount eventId (markTasksCompleted now eventId tasks c) = 0
        \<and> getRemainingTasks eventId (setRemainingTasks now' eventId fresh (markTasksCompleted now eventId tasks c))
          = Some (filter (\<lambda>t. \<forall>k. taskKey t = Some k \<longrightarrow> (\<forall>s \<in> set tasks. taskKey s \<noteq> Some k))
                    (deepCloneTasks fresh)))
   \<and> (\<not> truthy eventId \<or> tasks = [] \<longrightarrow> markTasksCompleted now eventId tasks c = c)
   \<and> (other \<noteq> toStr eventId \<longrightarrow> markTasksCompleted now eventId tasks c other = c other)"
proof (intro impI conjI)
  assume n: "c (toStr eventId) = None" and t: "truthy eventId \<and> tasks \<noteq> []"
  show e: "markTasksCompleted now eventId tasks c (toStr eventId)
          = Some \<lparr> remainingTasks = [], completedTaskKeys = {k. \<exists>t \<in> set tasks. taskKey t = Some k},
                   createdAt = now, updatedAt = now \<rparr>"
    using n t by (simp add: markTasksCompleted_def Let_def addKeys_set)
  show "getRemainingTasks eventId (markTasksCompleted now eventId tasks c) = Some []"
    using t e by (simp add: getRemainingTasks_def deepCloneTasks_def)
  show "getRemainingCount eventId (markTasksCompleted now eventId tasks c) = 0"
    using e by (simp add: getRemainingCount_def)
  have f: "notCompleted {k. \<exists>t \<in> set tasks. taskKey t = Some k} =
      (\<lambda>t. \<forall>k. taskKey t = Some k \<longrightarrow> (\<forall>s \<in> set tasks. taskKey s \<noteq> Some k))"
    by (auto simp: notCompleted_def fun_eq_iff split: option.splits)
  show "getRemainingTasks eventId (setRemainingTasks now' eventId fresh (markTasksCompleted now eventId tasks c))
          = Some (filter (\<lambda>t. \<forall>k. taskKey t = Some k \<longrightarrow> (\<forall>s \<in> set tasks. taskKey s \<noteq> Some k))
                    (deepCloneTasks fresh))"
    using t e
    by (simp add: getRemainingTasks_def setRemainingTasks_def Let_def deepCloneTasks_filter
          deepCloneTasks_idem flip: f)
next
  assume "\<not> truthy eventId \<or> tasks = []"
  then show "markTasksCompleted now eventId tasks c = c"
    by (auto simp: markTasksCompleted_def)
next
  assume "other \<noteq> toStr eventId"
  then show "markTasksCompleted now eventId tasks c other = c other"
    by (auto simp: markTasksCompleted_def Let_def)
qed


text \<open>
  C10 as stated fails: after marking A on an empty cache, \<open>getRemainingTasks\<close> answers
  \<open>[]\<close> where it answered \<open>null\<close> before, and storing A and B keeps only B where it kept
  both before.
\<close>

theorem markTasksCompleted_missing_entry_observable:
  "getRemainingTasks eventE newTaskCache = None
   \<and> getRemainingTasks eventE (markTasksCompleted 1 eventE [Some taskA] newTaskCache) = Some []
   \<and> getRemainingTasks eventE (setRemainingTasks 2 eventE [Some taskA, Some taskB] newTaskCache)
       = Some [Some taskA, Some taskB]
   \<and> getRemainingTasks eventE
         (setRemainingTasks 2 eventE [Some taskA, Some taskB]
            (markTasksCompleted 1 eventE [Some taskA] newTaskCache))
       = Some [Some taskB]"
  by (simp add: cache_eval)

text \<open>
  The theorem at the empty cache, for a truthy and for an empty event id.
\<close>

theorem markTasksCompleted_missing_entry_witness:
  "newTaskCache (toStr eventE) = None \<and> truthy eventE
   \<and> getRemainingTasks eventE (markTasksCompleted 1 eventE [Some taskA] newTaskCache) = Some []
   \<and> getRemainingCount eventE (markTasksCompleted 1 eventE [Some taskA] newTaskCache) = 0
   \<and> getRemainingTasks eventE
         (setRemainingTasks 2 eventE [Some taskA, Some taskB]
            (markTasksCompleted 1 eventE [Some taskA] newTaskCache)) = Some [Some taskB]
   \<and> markTasksCompleted 1 (JStr []) [Some taskA] newTaskCache = newTaskCache
   \<and> markTasksCompleted 1 eventE [Some taskA] newTaskCache ''other'' = newTaskCache ''other''"
proof -
  have n: "newTaskCache (toStr eventE) = None" and t: "truthy eventE" and t': "\<not> truthy (JStr [])"
    and o: "''other'' \<noteq> toStr eventE"
    by (simp_all add: newTaskCache_def eventE_def)
  have f: "filter (\<lambda>t. \<forall>k. taskKey t = Some k \<longrightarrow> (\<forall>s \<in> set [Some taskA]. taskKey s \<noteq> Some k))
      (deepCloneTasks [Some taskA, Some taskB]) = [Some taskB]"
    by (simp add: cache_eval)
  from markTasksCompleted_missing_entry
    [of newTaskCache eventE "[Some taskA]" 1 2 "[Some taskA, Some taskB]" "''other''"]
    n t o
  have a: "getRemainingTasks eventE (markTasksCompleted 1 eventE [Some taskA] newTaskCache) = Some []
   \<and> getRemainingCount eventE (markTasksCompleted 1 eventE [Some taskA] newTaskCache) = 0
   \<and> getRemainingTasks eventE
         (setRemainingTasks 2 eventE [Some taskA, Some taskB]
            (markTasksCompleted 1 eventE [Some taskA] newTaskCache))
       = Some (filter (\<lambda>t. \<forall>k. taskKey t = Some k \<longrightarrow> (\<forall>s \<in> set [Some taskA]. taskKey s \<noteq> Some k))
                 (deepCloneTasks [Some taskA, Some taskB]))
   \<and> markTasksCompleted 1 eventE [Some taskA] newTaskCache ''other'' = newTaskCache ''other''"
    by blast
  from markTasksCompleted_missing_entry [of newTaskCache "JStr []" "[Some taskA]" 1 2 "[]" "''other''"]
    t'
  have b: "markTasksCompleted 1 (JStr []) [Some taskA] newTaskCache = newTaskCache"
    by (simp add: newTaskCache_def)
  from n t a b f show ?thesis by simp
qed

text \<open>
  Idempotence at a concrete cache: A and B stored, A marked twice; B remains either way.
\<close>

theorem markTasksCompleted_idempotent_witness:
  "getRemainingTasks eventE
     (markTasksCompleted 2 eventE [Some taskA]
        (markTasksCompleted 1 eventE [Some taskA]
           (setRemainingTasks 0 eventE [Some taskA, Some taskB] newTaskCache)))
   = getRemainingTasks eventE
       (markTasksCompleted 1 eventE [Some taskA]
          (setRemainingTasks 0 eventE [Some taskA, Some taskB] newTaskCache))
   \<and> getRemainingTasks eventE
       (markTasksCompleted 1 eventE [Some taskA]
          (setRemainingTasks 0 eventE [Some taskA, Some taskB] newTaskCache))
     = Some [Some taskB]"
proof -
  have "getRemainingTasks eventE
       (markTasksCompleted 1 eventE [Some taskA]
          (setRemainingTasks 0 eventE [Some taskA, Some taskB] newTaskCache))
     = Some [Some taskB]"
    by (simp add: cache_eval)
  with markTasksCompleted_idempotent
    [of 2 eventE "[Some taskA]" 1 "setRemainingTasks 0 eventE [Some taskA, Some taskB] newTaskCache"
        "toStr eventE" eventE]
  show ?thesis by simp
qed
















section \<open>Properties of history compaction\<close>

lemma shouldSummarize_iff: "shouldSummarize m w \<longleftrightarrow> m \<ge> 8 \<and> m - w \<ge> 8"
  by (simp add: shouldSummarize_def Let_def)

lemma getMessagesToSummarize_split:
  "fst (getMessagesToSummarize msgs w) @ snd (getMessagesToSummarize msgs w) = msgs"
  by (simp add: getMessagesToSummarize_def Let_def)

lemma getMessagesToSummarize_keep:
  "snd (getMessagesToSummarize msgs w) = drop (length msgs - 8) msgs"
  by (simp add: getMessagesToSummarize_def Let_def)

lemma getMessagesToSummarize_old:
  "fst (getMessagesToSummarize msgs w) = take (length msgs - 8) msgs"
  by (simp add: getMessagesToSummarize_def Let_def)

lemma summarizeConversation_total: "\<exists>s. summarizeConversation completion msgs existing = Inr s"
  by (simp add: summarizeConversation_def split: option.splits)

lemma recordExchange_compacts:
  assumes "shouldSummarize (int (length h)) (orCount (c_lastSummarizedAt c))"
    and "summarize (take (length h - 8) h) (nonEmpty (c_summary c)) = Inr s"
  shows "recordExchange summarize n h c
    = c\<lparr> c_summary := Some s, c_conversationHistory := Some (drop (length h - 8) h),
          c_lastSummarizedAt := Some (int (length h)), c_followUpCount := Some n \<rparr>"
  using assms
  by (simp add: recordExchange_def Let_def case_prod_beta getMessagesToSummarize_keep
        getMessagesToSummarize_old)

lemma recordExchange_no_compaction:
  assumes "\<not> shouldSummarize (int (length h)) (orCount (c_lastSummarizedAt c))"
  shows "recordExchange summarize n h c
    = c\<lparr> c_conversationHistory := Some h, c_followUpCount := Some n \<rparr>"
  using assms by (simp add: recordExchange_def Let_def)

text \<open>
  C6. \<open>shouldSummarize\<close> holds exactly when the message count is at least 8 and has grown by
  at least 8 since the watermark. \<open>getMessagesToSummarize\<close> splits the history into the
  older messages and the most recent \<open>min(length, 8)\<close>. When compaction fires in the route,
  the stored history becomes the last 8 messages of the new history, the summary is what the
  summarizer returns on the older messages and the existing summary, and the watermark becomes
  the length of the new history; otherwise the whole history is kept and summary and watermark
  stay.
\<close>

theorem history_compaction:
  "(shouldSummarize m w \<longleftrightarrow> m \<ge> 8 \<and> m - w \<ge> 8)
   \<and> fst (getMessagesToSummarize msgs w) @ snd (getMessagesToSummarize msgs w) = msgs
   \<and> length (snd (getMessagesToSummarize msgs w)) = min (length msgs) 8
   \<and> (shouldSummarize (int (length h)) (orCount (c_lastSummarizedAt c)) \<longrightarrow>
        (\<exists>s. summarizeConversation completion (take (length h - 8) h) (nonEmpty (c_summary c)) = Inr s
           \<and> c_summary (recordExchange (summarizeConversation completion) n h c) = Some s)
        \<and> c_conversationHistory (recordExchange (summarizeConversation completion) n h c)
            = Some (drop (length h - 8) h)
        \<and> length (drop (length h - 8) h) = 8
        \<and> c_lastSummarizedAt (recordExchange (summarizeConversation completion) n h c)
            = Some (int (length h)))
   \<and> (\<not> shouldSummarize (int (length h)) (orCount (c_lastSummarizedAt c)) \<longrightarrow>
        c_conversationHistory (recordExchange (summarizeConversation completion) n h c) = Some h
        \<and> c_summary (recordExchange (summarizeConversation completion) n h c) = c_summary c
        \<and> c_lastSummarizedAt (recordExchange (summarizeConversation completion) n h c)
            = c_lastSummarizedAt c)"
proof (intro conjI impI)
  show "shouldSummarize m w \<longleftrightarrow> m \<ge> 8 \<and> m - w \<ge> 8"
    by (rule shouldSummarize_iff)
  show "fst (getMessagesToSummarize msgs w) @ snd (getMessagesToSummarize msgs w) = msgs"
    by (rule getMessagesToSummarize_split)
  show "length (snd (getMessagesToSummarize msgs w)) = min (length msgs) 8"
    by (simp add: getMessagesToSummarize_keep)
next
  assume a: "shouldSummarize (int (length h)) (orCount (c_lastSummarizedAt c))"
  obtain s where s: "summarizeConversation completion (take (length h - 8) h) (nonEmpty (c_summary c)) = Inr s"
    using summarizeConversation_total by blast
  have r: "recordExchange (summarizeConversation completion) n h c
    = c\<lparr> c_summary := Some s, c_conversationHistory := Some (drop (length h - 8) h),
          c_lastSummarizedAt := Some (int (length h)), c_followUpCount := Some n \<rparr>"
    using a s by (rule recordExchange_compacts)
  show "\<exists>s. summarizeConversation completion (take (length h - 8) h) (nonEmpty (c_summary c)) = Inr s
           \<and> c_summary (recordExchange (summarizeConversation completion) n h c) = Some s"
    using s r by simp
  show "c_conversationHistory (recordExchange (summarizeConversation completion) n h c)
            = Some (drop (length h - 8) h)"
    using r by simp
  show "length (drop (length h - 8) h) = 8"
    using a by (simp add: shouldSummarize_iff)
  show "c_lastSummarizedAt (recordExchange (summarizeConversation completion) n h c)
            = Some (int (length h))"
    using r by simp
next
  assume a: "\<not> shouldSummarize (int (length h)) (orCount (c_lastSummarizedAt c))"
  note r = recordExchange_no_compaction [OF a]
  show "c_conversationHistory (recordExchange (summarizeConversation completion) n h c) = Some h"
    using r by simp
  show "c_summary (recordExchange (summarizeConversation completion) n h c) = c_summary c"
    using r by simp
  show "c_lastSummarizedAt (recordExchange (summarizeConversation completion) n h c)
            = c_lastSummarizedAt c"
    using r by simp
qed

lemma length_tenMessages: "length tenMessages = 10"
  by (simp add: tenMessages_def length_concat eval_nat_numeral)

text \<open>
  Compaction at a history of ten messages with watermark 0: the last eight stay, the first
  exchange is summarised, the watermark becomes 10. With watermark 8 nothing fires.
\<close>

theorem history_compaction_witness:
  "shouldSummarize 10 0 \<and> \<not> shouldSummarize 10 8
   \<and> c_conversationHistory (recordExchange (summarizeConversation noCompletion) 2 tenMessages
        (newConversation ''conv_1'' 0)) = Some (drop 2 tenMessages)
   \<and> c_lastSummarizedAt (recordExchange (summarizeConversation noCompletion) 2 tenMessages
        (newConversation ''conv_1'' 0)) = Some 10
   \<and> c_summary (recordExchange (summarizeConversation noCompletion) 2 tenMessages
        (newConversation ''conv_1'' 0)) = Some ''Discussed: lunch''"
proof -
  have w: "orCount (c_lastSummarizedAt (newConversation ''conv_1'' 0)) = 0"
    and e: "nonEmpty (c_summary (newConversation ''conv_1'' 0)) = None"
    by (simp_all add: newConversation_def orCount_def nonEmpty_def)
  have s: "summarizeConversation noCompletion (take 2 tenMessages) None = Inr ''Discussed: lunch''"
    by (simp add: summarizeConversation_def noCompletion_def tenMessages_def orElse_def eval_nat_numeral)
  from history_compaction [where m = 10 and w = 0 and msgs = tenMessages and h = tenMessages
      and c = "newConversation ''conv_1'' 0" and completion = noCompletion and n = 2]
    history_compaction [where m = 10 and w = 8 and msgs = tenMessages and h = tenMessages
      and c = "newConversation ''conv_1'' 0" and completion = noCompletion and n = 2]
    w e s
  show ?thesis
    by (simp add: length_tenMessages)
qed

section \<open>Properties of the follow-up loop\<close>

lemma parseIntent_ask:
  assumes "p_intent p = Some ''needs_clarification''" "orCount n < 5"
  shows "\<exists>r. parseIntent transcript h n (Reply p) = Inr r
           \<and> r_intent r = ''needs_clarification''
           \<and> (\<exists>q. r_followUpQuestion r = Some q \<and> q \<noteq> [])
           \<and> \<not> r_readyToProcess r \<and> \<not> r_abort r \<and> r_abortMessage r = None
           \<and> r_eventDetails r = orDetails (p_eventDetails p)"
  using assms by (simp add: parseIntent_def Let_def orElse_def split: option.splits)

lemma parseIntent_abort:
  assumes "p_intent p = Some ''needs_clarification''" "orCount n \<ge> 5"
  shows "\<exists>r. parseIntent transcript h n (Reply p) = Inr r
           \<and> r_intent r = ''needs_clarification''
           \<and> r_followUpQuestion r = None
           \<and> \<not> r_readyToProcess r \<and> r_abort r \<and> r_abortMessage r = Some abortText"
  using assms by (simp add: parseIntent_def Let_def orElse_def)

lemma abortText_nonempty: "abortText \<noteq> []"
  by (simp add: abortText_def)

lemma nonEmpty_Some: "q \<noteq> [] \<Longrightarrow> nonEmpty (Some q) = Some q"
  by (simp add: nonEmpty_def)

lemma generated_not_builtin: "generateConversationId now random \<notin> set objectPrototypeNames"
  by (simp add: generateConversationId_def objectPrototypeNames_def)

lemma nonEmpty_None: "nonEmpty None = None"
  by (simp add: nonEmpty_def)

lemma nonEmpty_idem: "nonEmpty (nonEmpty x) = nonEmpty x"
  by (simp add: nonEmpty_def split: option.splits)

lemma nonEmpty_SomeD: "nonEmpty x = Some y \<Longrightarrow> x = Some y \<and> y \<noteq> []"
  by (auto simp: nonEmpty_def split: option.splits if_splits)

lemma generated_nonEmpty:
  "nonEmpty (Some (generateConversationId now random)) = Some (generateConversationId now random)"
  by (simp add: nonEmpty_def generateConversationId_def)

lemma getConversation_nonEmpty: "getConversation st (nonEmpty cid) = getConversation st cid"
  by (simp add: getConversation_def nonEmpty_idem)

lemma getConversation_own:
  "nonEmpty cid = Some i \<Longrightarrow> st i = Some c \<Longrightarrow> getConversation st cid = Stored c"
  by (simp add: getConversation_def)

lemma stored_Some: "stored f = Some c \<longleftrightarrow> f = Stored c"
  by (cases f) (simp_all add: stored_def)

lemma getConversation_Stored:
  "getConversation st cid = Stored c \<longleftrightarrow> (\<exists>i. nonEmpty cid = Some i \<and> st i = Some c)"
  by (auto simp: getConversation_def split: option.splits)

lemma getConversation_Missing:
  "getConversation st cid = Missing \<Longrightarrow> nonEmpty cid = Some i \<Longrightarrow> st i = None"
  by (auto simp: getConversation_def split: option.splits if_splits)

lemma mergeTurn_result:
  "\<exists>d. snd (snd (snd (mergeTurn now freshId fc st cid conv ir))) = ir\<lparr> r_eventDetails := d \<rparr>"
  by (auto simp: mergeTurn_def Let_def split: option.splits intro: exI [of _ "r_eventDetails ir"])

lemma saveConversation_other:
  "Some i \<noteq> nonEmpty cid \<Longrightarrow> saveConversation now st cid c i = st i"
  by (auto simp: saveConversation_def split: option.splits)

lemma saveConversation_count:
  "nonEmpty cid = Some i \<Longrightarrow> c_followUpCount c = Some fc
    \<Longrightarrow> \<exists>c'. saveConversation now st cid c i = Some c' \<and> c_followUpCount c' = Some fc"
  by (auto simp: saveConversation_def keep_def split: option.splits)

lemma saveConversation_None: "saveConversation now st None c = st"
  by (simp add: saveConversation_def nonEmpty_None)

lemma clearConversation_at:
  "nonEmpty cid = Some i \<Longrightarrow> clearConversation st cid i = None"
  and clearConversation_other:
  "Some i \<noteq> nonEmpty cid \<Longrightarrow> clearConversation st cid i = st i"
  and clearConversation_sub:
  "clearConversation st cid i = None \<or> clearConversation st cid i = st i"
  by (auto simp: clearConversation_def split: option.splits)

lemma mergeTurn_cases:
  assumes "mergeTurn now freshId fc st cid conv ir = (st1, cid1, conv1, ir1)"
  obtains (untouched) "conv1 = None" "conv = None" "st1 = st" "cid1 = cid"
    | (created) c1 where "conv1 = Some c1" "conv = None" "cid1 = Some freshId"
        "st1 = saveConversation now st (Some freshId) c1" "c_followUpCount c1 = Some fc"
    | (updated) c0 c1 where "conv1 = Some c1" "conv = Some c0" "cid1 = cid"
        "st1 = saveConversation now st cid c1"
        "c_followUpCount c1 = Some fc \<or> c_followUpCount c1 = c_followUpCount c0"
  using assms by (auto simp: mergeTurn_def Let_def split: option.splits if_splits)

lemma recordExchange_count: "c_followUpCount (recordExchange summarize fc h c) = Some fc"
  by (simp add: recordExchange_def Let_def case_prod_beta split: sum.splits)

text \<open>
  A request whose intent needs clarification, with a count below 5: the route answers with the
  question and without abort, whatever the store holds; a conversation named in the answer
  is stored with the count of the request.
\<close>

lemma processVoice_ask:
  assumes t: "q_transcript rq \<noteq> []" and p: "p_intent p = Some ''needs_clarification''"
    and n: "orCount (q_followUpCount rq) < 5"
    and nb: "getConversation st (q_conversationId rq) \<noteq> Builtin"
  shows "\<exists>st' resp. processVoice now random (Reply p) summarize rq st = Answered st' resp
           \<and> s_intent resp = ''needs_clarification'' \<and> s_followUpQuestion resp \<noteq> None
           \<and> \<not> s_abort resp
           \<and> getConversation st' (s_conversationId resp) \<noteq> Builtin
           \<and> (\<forall>c. getConversation st' (s_conversationId resp) = Stored c
                  \<longrightarrow> c_followUpCount c = Some (orCount (q_followUpCount rq)))
           \<and> (hasMeaningfulEventDetails (orDetails (p_eventDetails p))
                \<longrightarrow> (\<exists>c. getConversation st' (s_conversationId resp) = Stored c)
                    \<and> s_conversationId resp
                        = (case stored (getConversation st (q_conversationId rq)) of
                             None \<Rightarrow> Some (generateConversationId now random)
                           | Some c \<Rightarrow> nonEmpty (q_conversationId rq)))"
proof -
  let ?cid = "nonEmpty (q_conversationId rq)"
  let ?fc = "orCount (q_followUpCount rq)"
  let ?conv = "stored (getConversation st (q_conversationId rq))"
  let ?h = "case q_conversationHistory rq of
              None \<Rightarrow> Some (case ?conv of
                        None \<Rightarrow> orList (q_conversationHistory rq)
                      | Some c \<Rightarrow> (case c_conversationHistory c of
                              None \<Rightarrow> orList (q_conversationHistory rq)
                            | Some h \<Rightarrow> h))
            | Some h \<Rightarrow> Some h"
  let ?fresh = "generateConversationId now random"
  from parseIntent_ask [OF p n, of "q_transcript rq" ?h]
  obtain r where r: "parseIntent (q_transcript rq) ?h (q_followUpCount rq) (Reply p) = Inr r"
    "r_intent r = ''needs_clarification''" "\<exists>q. r_followUpQuestion r = Some q \<and> q \<noteq> []"
    "\<not> r_abort r" and rd: "r_eventDetails r = orDetails (p_eventDetails p)"
    by blast
  obtain st1 cid1 conv1 ir1 where m: "mergeTurn now ?fresh ?fc st ?cid ?conv r = (st1, cid1, conv1, ir1)"
    by (metis prod_cases4)
  obtain d where d: "ir1 = r\<lparr> r_eventDetails := d \<rparr>"
    using mergeTurn_result [of now ?fresh ?fc st ?cid ?conv r] m by auto
  have "\<exists>resp h. processVoice now random (Reply p) summarize rq st
        = Answered (case conv1 of None \<Rightarrow> st1
                    | Some c \<Rightarrow> saveConversation now st1 cid1 (recordExchange summarize ?fc h c)) resp
      \<and> s_intent resp = ''needs_clarification'' \<and> s_followUpQuestion resp \<noteq> None
      \<and> \<not> s_abort resp \<and> s_conversationId resp = cid1"
    using t r m d nb unfolding processVoice_def Let_def getConversation_nonEmpty
    by (cases conv1) (auto simp: Let_def nonEmpty_Some)
  then obtain resp h where pv: "processVoice now random (Reply p) summarize rq st
        = Answered (case conv1 of None \<Rightarrow> st1
                    | Some c \<Rightarrow> saveConversation now st1 cid1 (recordExchange summarize ?fc h c)) resp"
      "s_intent resp = ''needs_clarification''" "s_followUpQuestion resp \<noteq> None"
      "\<not> s_abort resp" "s_conversationId resp = cid1"
    by blast
  define conv3 where "conv3 = map_option (recordExchange summarize ?fc h) conv1"
  define st3 where "st3 = (case conv3 of None \<Rightarrow> st1 | Some c \<Rightarrow> saveConversation now st1 cid1 c)"
  have st3: "st3 = (case conv1 of None \<Rightarrow> st1
                    | Some c \<Rightarrow> saveConversation now st1 cid1 (recordExchange summarize ?fc h c))"
    by (cases conv1) (simp_all add: st3_def conv3_def)
  from m have "getConversation st3 cid1 \<noteq> Builtin
      \<and> (\<forall>c. getConversation st3 cid1 = Stored c \<longrightarrow> c_followUpCount c = Some ?fc)
      \<and> (hasMeaningfulEventDetails (orDetails (p_eventDetails p))
                \<longrightarrow> (\<exists>c. getConversation st3 cid1 = Stored c)
                    \<and> cid1 = (case ?conv of None \<Rightarrow> Some ?fresh | Some c \<Rightarrow> ?cid))"
  proof (cases rule: mergeTurn_cases)
    case untouched
    have "\<not> hasMeaningfulEventDetails (orDetails (p_eventDetails p))"
      using m untouched r(2) rd by (auto simp: mergeTurn_def Let_def split: if_splits option.splits)
    moreover have "st3 = st" "getConversation st (q_conversationId rq) = Missing"
      using untouched nb by (simp_all add: st3_def conv3_def stored_def split: found.splits)
    ultimately show ?thesis
      using untouched by (simp add: getConversation_nonEmpty)
  next
    case (created c1)
    obtain c3 where c3: "conv3 = Some c3" "c_followUpCount c3 = Some ?fc"
      using created(1) by (simp add: conv3_def recordExchange_count)
    obtain c' where "st3 ?fresh = Some c'" "c_followUpCount c' = Some ?fc"
      using c3 created(3)
        saveConversation_count [where cid = "Some ?fresh" and now = now and st = st1,
          OF generated_nonEmpty c3(2)]
      by (auto simp: st3_def)
    then show ?thesis
      using created(2,3) by (simp add: getConversation_own [OF generated_nonEmpty])
  next
    case (updated c0 c1)
    then obtain j where j: "?cid = Some j"
      by (auto simp: stored_Some getConversation_Stored nonEmpty_idem)
    then have jn: "nonEmpty ?cid = Some j"
      by (metis nonEmpty_idem)
    obtain c3 where c3: "conv3 = Some c3" "c_followUpCount c3 = Some ?fc"
      using updated(1) by (simp add: conv3_def recordExchange_count)
    obtain c' where "st3 j = Some c'" "c_followUpCount c' = Some ?fc"
      using c3 updated(3) saveConversation_count [where now = now and st = st1, OF jn c3(2)]
      by (auto simp: st3_def)
    then show ?thesis
      using updated(2,3) by (simp add: getConversation_own [OF jn])
  qed
  with pv st3 show ?thesis
    by auto
qed

text \<open>
  A request whose intent needs clarification, with a count of 5 or more: the route answers with
  abort and without question or conversation id, and afterwards the store has no conversation
  under the id of the request; no other conversation is created or changed.
\<close>

lemma processVoice_limit:
  assumes t: "q_transcript rq \<noteq> []" and p: "p_intent p = Some ''needs_clarification''"
    and n: "orCount (q_followUpCount rq) \<ge> 5"
    and nb: "getConversation st (q_conversationId rq) \<noteq> Builtin"
  shows "\<exists>st' resp. processVoice now random (Reply p) summarize rq st = Answered st' resp
           \<and> s_abort resp \<and> s_abortMessage resp = Some abortText
           \<and> s_followUpQuestion resp = None \<and> s_conversationId resp = None
           \<and> (\<forall>j. nonEmpty (q_conversationId rq) = Some j \<longrightarrow> st' j = None)
           \<and> (\<forall>j. st' j = None \<or> st' j = st j)"
proof -
  let ?cid = "nonEmpty (q_conversationId rq)"
  let ?fc = "orCount (q_followUpCount rq)"
  let ?conv = "stored (getConversation st (q_conversationId rq))"
  let ?h = "case q_conversationHistory rq of
              None \<Rightarrow> Some (case ?conv of
                        None \<Rightarrow> orList (q_conversationHistory rq)
                      | Some c \<Rightarrow> (case c_conversationHistory c of
                              None \<Rightarrow> orList (q_conversationHistory rq)
                            | Some h \<Rightarrow> h))
            | Some h \<Rightarrow> Some h"
  let ?fresh = "generateConversationId now random"
  from parseIntent_abort [OF p n, of "q_transcript rq" ?h]
  obtain r where r: "parseIntent (q_transcript rq) ?h (q_followUpCount rq) (Reply p) = Inr r"
    "r_followUpQuestion r = None" "r_abort r" "r_abortMessage r = Some abortText"
    by blast
  obtain st1 cid1 conv1 ir1 where m: "mergeTurn now ?fresh ?fc st ?cid ?conv r = (st1, cid1, conv1, ir1)"
    by (metis prod_cases4)
  obtain d where d: "ir1 = r\<lparr> r_eventDetails := d \<rparr>"
    using mergeTurn_result [of now ?fresh ?fc st ?cid ?conv r] m by auto
  define st2 where "st2 = (if cid1 \<noteq> None then clearConversation st1 cid1 else st1)"
  have "\<exists>resp. processVoice now random (Reply p) summarize rq st = Answered st2 resp
      \<and> s_abort resp \<and> s_abortMessage resp = Some abortText
      \<and> s_followUpQuestion resp = None \<and> s_conversationId resp = None"
    using t r m d nb abortText_nonempty unfolding processVoice_def Let_def getConversation_nonEmpty
    by (cases conv1)
       (auto simp: Let_def nonEmpty_Some nonEmpty_None st2_def saveConversation_None)
  moreover from m have "(\<forall>j. ?cid = Some j \<longrightarrow> st2 j = None) \<and> (\<forall>j. st2 j = None \<or> st2 j = st j)"
  proof (cases rule: mergeTurn_cases)
    case untouched
    have "st2 j = None" if "?cid = Some j" for j
    proof -
      from that have "nonEmpty cid1 = Some j" "cid1 \<noteq> None"
        using untouched(4) by (metis nonEmpty_idem, simp)
      then show ?thesis
        by (simp add: st2_def clearConversation_at)
    qed
    moreover have "st2 j = None \<or> st2 j = st j" for j
      using untouched(3) clearConversation_sub [of st1 cid1 j] by (simp add: st2_def)
    ultimately show ?thesis
      by blast
  next
    case (created c1)
    have st2: "st2 = clearConversation st1 (Some ?fresh)"
      using created(3) by (simp add: st2_def)
    have on: "st2 ?fresh = None"
      unfolding st2 by (rule clearConversation_at [OF generated_nonEmpty])
    have off: "st2 j = st j" if "j \<noteq> ?fresh" for j
      using that unfolding st2 created(4)
      by (simp add: clearConversation_other saveConversation_other generated_nonEmpty)
    have "getConversation st (q_conversationId rq) = Missing"
      using created(2) nb by (simp add: stored_def split: found.splits)
    then have "st j = None" if "?cid = Some j" for j
      using that getConversation_Missing [of st "q_conversationId rq" j] by blast
    then show ?thesis
      using off on by metis
  next
    case (updated c0 c1)
    then obtain j1 where j1: "?cid = Some j1"
      by (auto simp: stored_Some getConversation_Stored nonEmpty_idem)
    then have jn: "nonEmpty ?cid = Some j1"
      by (metis nonEmpty_idem)
    have st2: "st2 = clearConversation st1 ?cid"
      using updated(3) j1 by (simp add: st2_def)
    have on: "st2 j1 = None"
      unfolding st2 by (rule clearConversation_at [OF jn])
    have off: "st2 j = st j" if "j \<noteq> j1" for j
      using that jn unfolding st2 updated(4)
      by (simp add: clearConversation_other saveConversation_other)
    show ?thesis
      using off on j1 by (metis option.inject)
  qed
  ultimately show ?thesis
    by blast
qed

text \<open>
  One recording of the chain: with a closure whose count is below 5, the question is asked,
  the count of the state goes up by one, and a new recording is started.
\<close>

lemma transcribeAudio_asking:
  assumes a: "asking u" and v: "v_followUpCount v < 5"
    and nb: "getConversation st (k_conversationId k) \<noteq> Builtin"
  shows "\<exists>k' st'. transcribeAudio v u (k, st) = Some (k', st', True)
           \<and> k_followUpCount k' = k_followUpCount k + 1
           \<and> getConversation st' (k_conversationId k') \<noteq> Builtin
           \<and> (\<forall>c. getConversation st' (k_conversationId k') = Stored c
                  \<longrightarrow> c_followUpCount c = Some (v_followUpCount v))
           \<and> (withDetails u
                \<longrightarrow> (\<exists>c. getConversation st' (k_conversationId k') = Stored c)
                    \<and> nonEmpty (k_conversationId k')
                        = (case stored (getConversation st (k_conversationId k)) of
                             None \<Rightarrow> Some (generateConversationId (u_now u) (u_random u))
                           | Some c \<Rightarrow> nonEmpty (k_conversationId k)))"
proof -
  from a obtain p where p: "u_reply u = Reply p" "p_intent p = Some ''needs_clarification''"
    and t: "trim (u_transcript u) \<noteq> []"
    by (auto simp: asking_def split: llmReply.splits)
  let ?rq = "clientRequest v k (trim (u_transcript u))"
  have rq: "q_transcript ?rq \<noteq> []" "orCount (q_followUpCount ?rq) < 5"
    "getConversation st (q_conversationId ?rq) \<noteq> Builtin"
    "orCount (q_followUpCount ?rq) = v_followUpCount v"
    "q_conversationId ?rq = k_conversationId k"
    using t v nb by (simp_all add: clientRequest_def orCount_def)
  from processVoice_ask [OF rq(1) p(2) rq(2) rq(3), of "u_now u" "u_random u"
      "summarizeConversation (u_completion u)"]
  obtain st' resp where pv: "processVoice (u_now u) (u_random u) (Reply p)
        (summarizeConversation (u_completion u)) ?rq st = Answered st' resp"
    "s_intent resp = ''needs_clarification''" "s_followUpQuestion resp \<noteq> None" "\<not> s_abort resp"
    "getConversation st' (s_conversationId resp) \<noteq> Builtin"
    "\<forall>c. getConversation st' (s_conversationId resp) = Stored c
        \<longrightarrow> c_followUpCount c = Some (orCount (q_followUpCount ?rq))"
    "hasMeaningfulEventDetails (orDetails (p_eventDetails p))
        \<longrightarrow> (\<exists>c. getConversation st' (s_conversationId resp) = Stored c)
            \<and> s_conversationId resp
                = (case stored (getConversation st (q_conversationId ?rq)) of
                     None \<Rightarrow> Some (generateConversationId (u_now u) (u_random u))
                   | Some c \<Rightarrow> nonEmpty (q_conversationId ?rq))"
    by blast
  define k' where "k' = k\<lparr> k_conversationId := nonEmpty (s_conversationId resp),
      k_conversationHistory := s_conversationHistory resp,
      k_followUpCount := k_followUpCount k + 1, k_isInFollowUpLoop := True \<rparr>"
  have ta: "transcribeAudio v u (k, st) = Some (k', st', True)"
    using t p(1) pv(1-4) v
    by (simp add: transcribeAudio_def handleVoiceInput_def Let_def k'_def)
  have id: "nonEmpty (k_conversationId k') = nonEmpty (s_conversationId resp)"
    by (simp add: k'_def nonEmpty_idem)
  have g: "getConversation st' (k_conversationId k') = getConversation st' (s_conversationId resp)"
    by (simp add: k'_def getConversation_nonEmpty)
  have d: "(\<exists>c. getConversation st' (s_conversationId resp) = Stored c)
      \<and> nonEmpty (s_conversationId resp)
          = (case stored (getConversation st (k_conversationId k)) of
               None \<Rightarrow> Some (generateConversationId (u_now u) (u_random u))
             | Some c \<Rightarrow> nonEmpty (k_conversationId k))" if w: "withDetails u"
  proof -
    from w p(1) have "hasMeaningfulEventDetails (orDetails (p_eventDetails p))"
      by (simp add: withDetails_def)
    with pv(7) have e: "\<exists>c. getConversation st' (s_conversationId resp) = Stored c"
      and i: "s_conversationId resp
                = (case stored (getConversation st (q_conversationId ?rq)) of
                     None \<Rightarrow> Some (generateConversationId (u_now u) (u_random u))
                   | Some c \<Rightarrow> nonEmpty (q_conversationId ?rq))"
      by blast+
    note i' = i [unfolded rq(5)]
    have "nonEmpty (s_conversationId resp) = s_conversationId resp"
      unfolding i' by (simp add: generated_nonEmpty nonEmpty_idem split: option.splits)
    from this i' have "nonEmpty (s_conversationId resp)
          = (case stored (getConversation st (k_conversationId k)) of
               None \<Rightarrow> Some (generateConversationId (u_now u) (u_random u))
             | Some c \<Rightarrow> nonEmpty (k_conversationId k))"
      by (rule trans)
    with e show ?thesis
      by (rule conjI)
  qed
  have A: "k_followUpCount k' = k_followUpCount k + 1"
    by (simp add: k'_def)
  have B: "getConversation st' (k_conversationId k') \<noteq> Builtin"
    unfolding g by (rule pv(5))
  have C: "\<forall>c. getConversation st' (k_conversationId k') = Stored c
                  \<longrightarrow> c_followUpCount c = Some (v_followUpCount v)"
    unfolding g using pv(6) rq(4) by simp
  have D: "withDetails u
                \<longrightarrow> (\<exists>c. getConversation st' (k_conversationId k') = Stored c)
                    \<and> nonEmpty (k_conversationId k')
                        = (case stored (getConversation st (k_conversationId k)) of
                             None \<Rightarrow> Some (generateConversationId (u_now u) (u_random u))
                           | Some c \<Rightarrow> nonEmpty (k_conversationId k))"
    unfolding g id using d by blast
  from ta A B C D show ?thesis
    by blast
qed

lemma startListening_asking:
  assumes "\<forall>u \<in> set us. asking u" and "v_followUpCount v < 5"
    and "getConversation st (k_conversationId k) \<noteq> Builtin"
  shows "\<exists>k' st'. startListening v (k, st) us = Some (k', st')
           \<and> k_followUpCount k' = k_followUpCount k + int (length us)
           \<and> getConversation st' (k_conversationId k') \<noteq> Builtin
           \<and> (us \<noteq> [] \<longrightarrow>
                (\<forall>c. getConversation st' (k_conversationId k') = Stored c
                  \<longrightarrow> c_followUpCount c = Some (v_followUpCount v)))
           \<and> (us \<noteq> [] \<and> (\<forall>u \<in> set us. withDetails u) \<longrightarrow>
                (\<exists>c. getConversation st' (k_conversationId k') = Stored c)
                \<and> nonEmpty (k_conversationId k')
                    = (case stored (getConversation st (k_conversationId k)) of
                         None \<Rightarrow> Some (generateConversationId (u_now (hd us)) (u_random (hd us)))
                       | Some c \<Rightarrow> nonEmpty (k_conversationId k)))"
  using assms
proof (induction us arbitrary: k st)
  case Nil
  then show ?case by simp
next
  case (Cons u us)
  from Cons.prems have a: "asking u" and as: "\<forall>u \<in> set us. asking u"
    by simp_all
  from transcribeAudio_asking [OF a Cons.prems(2,3)]
  obtain k1 st1 where s1: "transcribeAudio v u (k, st) = Some (k1, st1, True)"
    "k_followUpCount k1 = k_followUpCount k + 1"
    "getConversation st1 (k_conversationId k1) \<noteq> Builtin"
    "\<forall>c. getConversation st1 (k_conversationId k1) = Stored c
        \<longrightarrow> c_followUpCount c = Some (v_followUpCount v)"
    "withDetails u
        \<longrightarrow> (\<exists>c. getConversation st1 (k_conversationId k1) = Stored c)
            \<and> nonEmpty (k_conversationId k1)
                = (case stored (getConversation st (k_conversationId k)) of
                     None \<Rightarrow> Some (generateConversationId (u_now u) (u_random u))
                   | Some c \<Rightarrow> nonEmpty (k_conversationId k))"
    by blast
  from Cons.IH [OF as Cons.prems(2) s1(3)]
  obtain k2 st2 where s2: "startListening v (k1, st1) us = Some (k2, st2)"
    "k_followUpCount k2 = k_followUpCount k1 + int (length us)"
    "getConversation st2 (k_conversationId k2) \<noteq> Builtin"
    "us \<noteq> [] \<longrightarrow>
        (\<forall>c. getConversation st2 (k_conversationId k2) = Stored c
          \<longrightarrow> c_followUpCount c = Some (v_followUpCount v))"
    "us \<noteq> [] \<and> (\<forall>u \<in> set us. withDetails u) \<longrightarrow>
        (\<exists>c. getConversation st2 (k_conversationId k2) = Stored c)
        \<and> nonEmpty (k_conversationId k2)
            = (case stored (getConversation st1 (k_conversationId k1)) of
                 None \<Rightarrow> Some (generateConversationId (u_now (hd us)) (u_random (hd us)))
               | Some c \<Rightarrow> nonEmpty (k_conversationId k1))"
    by blast
  have e: "u_ending u = AutoStop"
    using a by (simp add: asking_def)
  have run: "startListening v (k, st) (u # us) = Some (k2, st2)"
    using e s1(1) s2(1) by simp
  have nil: "us = [] \<Longrightarrow> k2 = k1 \<and> st2 = st1"
    using s2(1) by simp
  have cnt: "k_followUpCount k2 = k_followUpCount k + int (length (u # us))"
    using s1(2) s2(2) by simp
  have stc: "\<forall>c. getConversation st2 (k_conversationId k2) = Stored c
          \<longrightarrow> c_followUpCount c = Some (v_followUpCount v)"
    using s1(4) s2(4) nil by (cases "us = []") simp_all
  have det: "(\<forall>u \<in> set (u # us). withDetails u) \<Longrightarrow>
        (\<exists>c. getConversation st2 (k_conversationId k2) = Stored c)
        \<and> nonEmpty (k_conversationId k2)
            = (case stored (getConversation st (k_conversationId k)) of
                 None \<Rightarrow> Some (generateConversationId (u_now u) (u_random u))
               | Some c \<Rightarrow> nonEmpty (k_conversationId k))"
  proof -
    assume w: "\<forall>u \<in> set (u # us). withDetails u"
    then have "withDetails u"
      by simp
    with s1(5) have w1: "(\<exists>c. getConversation st1 (k_conversationId k1) = Stored c)"
      and i1: "nonEmpty (k_conversationId k1)
                = (case stored (getConversation st (k_conversationId k)) of
                     None \<Rightarrow> Some (generateConversationId (u_now u) (u_random u))
                   | Some c \<Rightarrow> nonEmpty (k_conversationId k))"
      by blast+
    show ?thesis
    proof (cases "us = []")
      case True
      with nil have "k2 = k1" "st2 = st1"
        by simp_all
      then show ?thesis
        using w1 i1 by blast
    next
      case False
      from w have "\<forall>u \<in> set us. withDetails u"
        by simp
      with False s2(5) have w2: "\<exists>c. getConversation st2 (k_conversationId k2) = Stored c"
        and i2: "nonEmpty (k_conversationId k2)
            = (case stored (getConversation st1 (k_conversationId k1)) of
                 None \<Rightarrow> Some (generateConversationId (u_now (hd us)) (u_random (hd us)))
               | Some c \<Rightarrow> nonEmpty (k_conversationId k1))"
        by blast+
      from w1 obtain c where "getConversation st1 (k_conversationId k1) = Stored c"
        by blast
      with i2 have "nonEmpty (k_conversationId k2) = nonEmpty (k_conversationId k1)"
        by (simp add: stored_def)
      with w2 i1 show ?thesis by metis
    qed
  qed
  show ?case
  proof (intro exI conjI)
    show "startListening v (k, st) (u # us) = Some (k2, st2)"
      by (rule run)
    show "k_followUpCount k2 = k_followUpCount k + int (length (u # us))"
      by (rule cnt)
    show "getConversation st2 (k_conversationId k2) \<noteq> Builtin"
      by (rule s2(3))
    show "u # us \<noteq> [] \<longrightarrow>
        (\<forall>c. getConversation st2 (k_conversationId k2) = Stored c
          \<longrightarrow> c_followUpCount c = Some (v_followUpCount v))"
      using stc by blast
    show "u # us \<noteq> [] \<and> (\<forall>u \<in> set (u # us). withDetails u) \<longrightarrow>
        (\<exists>c. getConversation st2 (k_conversationId k2) = Stored c)
        \<and> nonEmpty (k_conversationId k2)
            = (case stored (getConversation st (k_conversationId k)) of
                 None \<Rightarrow> Some (generateConversationId (u_now (hd (u # us))) (u_random (hd (u # us))))
               | Some c \<Rightarrow> nonEmpty (k_conversationId k))"
      unfolding list.sel using det by blast
  qed
qed

lemma base36_small: "n < 36 \<Longrightarrow> base36 n = [digit36 n]"
  by (simp add: base36.simps)

lemma base36_big: "\<not> n < 36 \<Longrightarrow> base36 n = base36 (n div 36) @ [digit36 (n mod 36)]"
  by (subst base36.simps) simp

lemma digit36_eval:
  "digit36 0 = CHR ''0''" "digit36 2 = CHR ''2''" "digit36 3 = CHR ''3''" "digit36 8 = CHR ''8''"
  "digit36 11 = CHR ''b''" "digit36 16 = CHR ''g''" "digit36 22 = CHR ''m''" "digit36 28 = CHR ''s''"
  by (simp_all add: digit36_def) code_simp+

lemma base36_sample: "base36 1732262400000 = ''m3sgb280''"
  by (simp add: base36_small base36_big digit36_eval)

lemma id_sample: "generateConversationId 1732262400000 ''0.k3x9q2ab'' = ''conv_m3sgb280_k3x9q2''"
  by (simp add: generateConversationId_def base36_sample)

lemma trim_lunch: "trim ''lunch'' = ''lunch''"
  by (simp add: trim_def isSpace_def)

lemma asking_ask: "asking (ask n)" and withDetails_ask: "withDetails (ask n)"
  by (simp_all add: asking_def withDetails_def ask_def askReply_def trim_lunch orDetails_def
        hasMeaningfulEventDetails_def present_def noDetails_def)

text \<open>
  However many questions are asked in one chain of recordings: each is answered with a
  question, and the count of the state is their number.
\<close>

lemma clickStart_asks:
  "\<exists>k st. clickStart (newClient, newStore) (map ask [0..<n]) = Some (k, st)
      \<and> k_followUpCount k = int n
      \<and> (0 < n \<longrightarrow> k_conversationId k = Some ''conv_m3sgb280_k3x9q2''
            \<and> (\<exists>c. st ''conv_m3sgb280_k3x9q2'' = Some c \<and> c_followUpCount c = Some 0))"
proof -
  let ?us = "map ask [0..<n]"
  have a: "\<forall>u \<in> set ?us. asking u" and w: "\<forall>u \<in> set ?us. withDetails u"
    by (simp_all add: asking_ask withDetails_ask)
  have v: "v_followUpCount (render newClient) < 5" "v_followUpCount (render newClient) = 0"
    by (simp_all add: render_def newClient_def)
  have nb: "getConversation newStore (k_conversationId newClient) \<noteq> Builtin"
    and ms: "stored (getConversation newStore (k_conversationId newClient)) = None"
    by (simp_all add: newClient_def nonEmpty_None getConversation_def stored_def)
  from startListening_asking [OF a v(1) nb]
  obtain k st where r: "startListening (render newClient) (newClient, newStore) ?us = Some (k, st)"
    "k_followUpCount k = k_followUpCount newClient + int (length ?us)"
    "?us \<noteq> [] \<longrightarrow>
        (\<forall>c. getConversation st (k_conversationId k) = Stored c
          \<longrightarrow> c_followUpCount c = Some (v_followUpCount (render newClient)))"
    "?us \<noteq> [] \<and> (\<forall>u \<in> set ?us. withDetails u) \<longrightarrow>
        (\<exists>c. getConversation st (k_conversationId k) = Stored c)
        \<and> nonEmpty (k_conversationId k)
            = (case stored (getConversation newStore (k_conversationId newClient)) of
                 None \<Rightarrow> Some (generateConversationId (u_now (hd ?us)) (u_random (hd ?us)))
               | Some c \<Rightarrow> nonEmpty (k_conversationId newClient))"
    by blast
  have c: "k_followUpCount k = int n"
    using r(2) by (simp add: newClient_def)
  have "k_conversationId k = Some ''conv_m3sgb280_k3x9q2''
            \<and> (\<exists>c. st ''conv_m3sgb280_k3x9q2'' = Some c \<and> c_followUpCount c = Some 0)" if n: "0 < n"
  proof -
    from n have ne: "?us \<noteq> []" and h: "hd ?us = ask 0"
      by (simp_all add: hd_map upt_conv_Cons)
    have g: "generateConversationId (u_now (ask 0)) (u_random (ask 0)) = ''conv_m3sgb280_k3x9q2''"
      by (simp add: ask_def id_sample)
    from r(4) ne w obtain c where s: "getConversation st (k_conversationId k) = Stored c"
      and i: "nonEmpty (k_conversationId k) = Some ''conv_m3sgb280_k3x9q2''"
      unfolding ms h g by auto
    from r(3) ne s v(2) have "c_followUpCount c = Some 0"
      by simp
    moreover from s i have "st ''conv_m3sgb280_k3x9q2'' = Some c"
      by (auto simp: getConversation_Stored nonEmpty_def)
    moreover from i have "k_conversationId k = Some ''conv_m3sgb280_k3x9q2''"
      using nonEmpty_SomeD by blast
    ultimately show ?thesis
      by blast
  qed
  with r(1) c show ?thesis
    by (auto simp: clickStart_def)
qed

text \<open>
  C5 fails on the code. The route aborts and deletes the conversation when the request carries
  a count of 5, but the count that a request carries is the one of the render in which the
  microphone was clicked: the recordings that follow a question are started, transcribed and
  handled by the functions of that render, which read its \<open>followUpCount\<close>, while
  \<open>setFollowUpCount(prev => prev + 1)\<close> counts in the state. After one click and six
  recordings that end by themselves, each answered with a question, the count of the client is
  6; every request has carried 0, and 0 is what the stored conversation has. The same for any
  number of recordings: no request of the chain reaches the limit.
\<close>

theorem followUp_count_passes_limit:
  "map_option (\<lambda>ks. (k_followUpCount (fst ks), k_conversationId (fst ks),
        map_option c_followUpCount (snd ks ''conv_m3sgb280_k3x9q2'')))
      (clickStart (newClient, newStore) (map ask [0..<6]))
     = Some (6, Some ''conv_m3sgb280_k3x9q2'', Some (Some 0))
   \<and> q_followUpCount (clientRequest (render newClient) k transcriptText) = Some 0
   \<and> (\<forall>n. map_option (\<lambda>ks. k_followUpCount (fst ks))
          (clickStart (newClient, newStore) (map ask [0..<n])) = Some (int n))"
proof (intro conjI allI)
  from clickStart_asks [of 6]
  show "map_option (\<lambda>ks. (k_followUpCount (fst ks), k_conversationId (fst ks),
        map_option c_followUpCount (snd ks ''conv_m3sgb280_k3x9q2'')))
      (clickStart (newClient, newStore) (map ask [0..<6]))
     = Some (6, Some ''conv_m3sgb280_k3x9q2'', Some (Some 0))"
    by auto
  show "q_followUpCount (clientRequest (render newClient) k transcriptText) = Some 0"
    by (simp add: clientRequest_def render_def newClient_def)
  fix n
  from clickStart_asks [of n]
  show "map_option (\<lambda>ks. k_followUpCount (fst ks))
          (clickStart (newClient, newStore) (map ask [0..<n])) = Some (int n)"
    by auto
qed
section \<open>Properties of event normalisation and of the free-slot search\<close>











subsection \<open>The sample dates on the UTC platform\<close>

lemmas parse_eval = utcParse_def isoDay_def isoClock_def isDigit_def digitsToNat_def
  daysFromCivil_def

lemma lib_parse: "dl_parse utcLib = utcParse"
  and lib_local: "dl_local utcLib = utcLocal"
  and lib_isoDate: "dl_isoDate utcLib = utcIsoDate"
  by (simp_all add: utcLib_def)

lemma parse_1000: "utcParse ''2024-11-22T10:00:00Z'' = Some 1732269600000"
  by (simp add: parse_eval)

lemma parse_1800: "utcParse ''2024-11-22T18:00:00Z'' = Some 1732298400000"
  by (simp add: parse_eval)

lemma parse_1100: "utcParse ''2024-11-22T11:00:00Z'' = Some 1732273200000"
  by (simp add: parse_eval)

lemma parse_1200: "utcParse ''2024-11-22T12:00:00Z'' = Some 1732276800000"
  by (simp add: parse_eval)



lemma parse_tomorrow: "utcParse ''tomorrow'' = None"
  by (simp add: parse_eval)

lemma isoDate_0800: "utcIsoDate 1732262400000 = ''2024-11-22''"
  by code_simp

lemma isoDate_1300: "utcIsoDate 1732280400000 = ''2024-11-22''"
  by code_simp


lemma local_1000: "utcLocal 1732269600000 = (2024, 10, 22, 10, 0)"
  by code_simp

lemma show_2024: "showInt 2024 = ''2024''"
  by code_simp

lemma show_11: "showInt 11 = ''11''"
  by code_simp

lemma show_22: "showInt 22 = ''22''"
  by code_simp

lemma show_10: "showInt 10 = ''10''"
  by code_simp

lemma show_0: "showInt 0 = ''0''"
  by code_simp

lemma localDateStr_1000: "localDateStr utcLib (Some 1732269600000) = ''2024-11-22''"
  by (simp add: localDateStr_def showNum_def padStart2_def lib_local local_1000
        show_2024 show_11 show_22)

lemma localTimeStr_1000: "localTimeStr utcLib (Some 1732269600000) = ''10:00''"
  by (simp add: localTimeStr_def showNum_def padStart2_def lib_local local_1000 show_10 show_0)

subsection \<open>Normalisation at the samples\<close>

lemma includesT_long: "dateIncludesT (e_date longMeeting) = Inr (Some True)"
  by (simp add: longMeeting_def noEvent_def)

lemma normalizeTimed_long: "normalizeTimed utcLib longMeeting (Some True)
    = Inr (Some \<lparr> n_source = longMeeting, n_date = ''2024-11-22'', n_time = JStr ''10:00'',
                   n_duration = JNum 480 \<rparr>)"
proof -
  have "e_date longMeeting = Val (JStr ''2024-11-22T10:00:00Z'')"
    "e_endDate longMeeting = Val (JStr ''2024-11-22T18:00:00Z'')"
    by (simp_all add: longMeeting_def noEvent_def)
  then show ?thesis
    by (simp add: normalizeTimed_def fromDateTime_def isDateString_def minutesBetween_def
          lib_parse parse_1000 parse_1800 localDateStr_1000 localTimeStr_1000)
qed

lemma normalize_long: "normalizeEvent utcLib (Some longMeeting)
    = Inr (Some \<lparr> n_source = longMeeting, n_date = ''2024-11-22'', n_time = JStr ''10:00'',
                   n_duration = JNum 480 \<rparr>)"
proof -
  have "\<not> truthy (e_allDay longMeeting)"
    by (simp add: longMeeting_def noEvent_def)
  then show ?thesis
    by (simp add: normalizeEvent_def includesT_long normalizeTimed_long)
qed

subsection \<open>A date given by name\<close>








text \<open>
  C9 fails on the code. A date that is a number or a \<open>Date\<close> object makes the guard's
  \<open>event.date?.includes('T')\<close> raise a \<open>TypeError\<close>; a date string that does not parse,
  together with a time, makes \<open>toISOString()\<close> raise a \<open>RangeError\<close>. The exception
  ends the whole call: the well-formed workshop before the bad entry is lost with it.
\<close>

theorem normalize_throws:
  "normalizeEventsForConflictCheck utcLib
     [Some (noEvent\<lparr> e_date := Val (JNum 1732285800000), e_time := JStr ''14:30'' \<rparr>)] = Inl TypeError
   \<and> normalizeEventsForConflictCheck utcLib
     [Some (noEvent\<lparr> e_date := DateObj (Some 1732285800000) \<rparr>)] = Inl TypeError
   \<and> normalizeEventsForConflictCheck utcLib
     [Some (noEvent\<lparr> e_date := Val (JStr ''tomorrow''), e_time := JStr ''10:00'' \<rparr>)] = Inl RangeError
   \<and> normalizeEventsForConflictCheck utcLib
     [Some longMeeting, Some (noEvent\<lparr> e_date := Val (JNum 1732285800000), e_time := JStr ''14:30'' \<rparr>)]
       = Inl TypeError"
proof -
  have a: "normalizeEvent utcLib (Some (noEvent\<lparr> e_date := Val (JNum 1732285800000), e_time := JStr ''14:30'' \<rparr>))
      = Inl TypeError"
    by (simp add: normalizeEvent_def noEvent_def)
  have b: "normalizeEvent utcLib (Some (noEvent\<lparr> e_date := DateObj (Some 1732285800000) \<rparr>)) = Inl TypeError"
    by (simp add: normalizeEvent_def noEvent_def)
  have c: "normalizeEvent utcLib (Some (noEvent\<lparr> e_date := Val (JStr ''tomorrow''), e_time := JStr ''10:00'' \<rparr>))
      = Inl RangeError"
    by (simp add: normalizeEvent_def normalizeTimed_def isDateString_def isDateObject_def
          fieldValue_def mockDateStr_def matchesYMD_def noEvent_def lib_parse parse_tomorrow)
  show ?thesis
    by (simp add: a b c normalize_long)
qed

subsection \<open>The free-slot search\<close>

lemma gapSlot_min:
  "s \<in> set (gapSlot lib m c u) \<Longrightarrow> m \<le> f_duration s \<and> f_startTime s < f_endTime s
     \<and> f_duration s = of_int (f_endTime s - f_startTime s) / 60000"
  by (auto simp: gapSlot_def Let_def split: if_splits)

lemma fold_walk_slots:
  assumes "\<forall>s \<in> set (snd st). P s" "\<And>c u s. s \<in> set (gapSlot lib m c u) \<Longrightarrow> P s"
  shows "\<forall>s \<in> set (snd (fold (walk lib m) bs st)). P s"
  using assms(1)
proof (induction bs arbitrary: st)
  case Nil
  then show ?case by simp
next
  case (Cons b bs)
  have "\<forall>s \<in> set (snd (walk lib m b st)). P s"
    using Cons.prems assms(2) by (auto simp: walk_def Let_def split: option.splits)
  then show ?case
    using Cons.IH by simp
qed

lemma findFreeSlots_min_duration:
  assumes "findFreeSlots lib clock events startDate endDate opts = Inr slots" "s \<in> set slots"
  shows "(case o_minDuration opts of None \<Rightarrow> 120 | Some m \<Rightarrow> m) \<le> f_duration s
       \<and> f_startTime s < f_endTime s
       \<and> f_duration s = of_int (f_endTime s - f_startTime s) / 60000"
proof -
  let ?m = "case o_minDuration opts of None \<Rightarrow> 120 | Some m \<Rightarrow> m"
  let ?P = "\<lambda>s. ?m \<le> f_duration s \<and> f_startTime s < f_endTime s
       \<and> f_duration s = of_int (f_endTime s - f_startTime s) / 60000"
  have g: "\<And>c u s. s \<in> set (gapSlot lib ?m c u) \<Longrightarrow> ?P s"
    by (rule gapSlot_min)
  have w: "\<forall>s \<in> set (snd (fold (walk lib ?m) bs (c, []))). ?P s" for bs c
    by (rule fold_walk_slots [where P = ?P, OF _ g]) simp_all
  let ?now = "case startDate of None \<Rightarrow> clock | Some s \<Rightarrow> s"
  from assms(1) obtain objects where objects: "those events = Some objects"
    by (auto simp: findFreeSlots_def Let_def split: option.splits)
  let ?final = "fold (walk lib ?m)
      (sort_key b_start (List.map_filter (toBusy lib ?now) objects)) (Some (floorHour ?now), [])"
  let ?searchEnd = "case endDate of None \<Rightarrow>
      ?now + (case o_daysToCheck opts of None \<Rightarrow> 14 | Some d \<Rightarrow> d) * 86400000 | Some e \<Rightarrow> e"
  obtain final where final: "final = ?final" by simp
  have slots: "slots = (case fst final of None \<Rightarrow> snd final
      | Some currentTime \<Rightarrow> snd final @ gapSlot lib ?m currentTime ?searchEnd)"
    using assms(1) objects unfolding final
    by (auto simp: findFreeSlots_def Let_def)
  have f: "\<forall>s \<in> set (snd final). ?P s"
    unfolding final by (rule w)
  show ?thesis
  proof (cases "fst final")
    case None
    with slots assms(2) f show ?thesis by simp
  next
    case (Some c)
    with slots assms(2) have "s \<in> set (snd final) \<or> s \<in> set (gapSlot lib ?m c ?searchEnd)"
      by simp
    with f g show ?thesis by blast
  qed
qed

lemma busy_long: "toBusy utcLib 1732262400000 longMeeting
    = Some \<lparr> b_start = 1732269600000, b_end = Some 1732298400000, b_title = JStr ''Workshop'' \<rparr>"
  by (simp add: toBusy_def longMeeting_def noEvent_def lib_parse parse_1000 parse_1800)

lemma busy_short: "toBusy utcLib 1732262400000 shortMeeting
    = Some \<lparr> b_start = 1732273200000, b_end = Some 1732276800000, b_title = JStr ''Call'' \<rparr>"
  by (simp add: toBusy_def shortMeeting_def noEvent_def lib_parse parse_1100 parse_1200)



text \<open>
  C4 fails on the code. The workshop runs from 10:00 to 18:00 and the call, inside it, from
  11:00 to 12:00; the window is 08:00 to 20:00. After the workshop the cursor is at 19:00;
  the call then sets it back to 13:00 (there is no maximum with the cursor), and the second
  slot returned, 13:00 to 20:00, overlaps the workshop.
\<close>

theorem findFreeSlots_overlapping_slot:
  "findFreeSlots utcLib 0 [Some longMeeting, Some shortMeeting] (Some 1732262400000) (Some 1732305600000) defaults
     = Inr [\<lparr> f_startTime = 1732262400000, f_endTime = 1732269600000, f_duration = 120,
              f_date = ''2024-11-22'' \<rparr>,
            \<lparr> f_startTime = 1732280400000, f_endTime = 1732305600000, f_duration = 420,
              f_date = ''2024-11-22'' \<rparr>]
   \<and> newDate utcLib (e_date longMeeting) = Some 1732269600000
   \<and> newDate utcLib (e_endDate longMeeting) = Some 1732298400000
   \<and> slotOverlaps \<lparr> f_startTime = 1732280400000, f_endTime = 1732305600000, f_duration = 420,
              f_date = ''2024-11-22'' \<rparr> 1732269600000 1732298400000
   \<and> map_option (\<lambda>b. fst (walk utcLib 120 b (Some 1732262400000, [])))
         (toBusy utcLib 1732262400000 longMeeting) = Some (Some 1732302000000)
   \<and> map_option (\<lambda>b. fst (walk utcLib 120 b (Some 1732302000000, [])))
         (toBusy utcLib 1732262400000 shortMeeting) = Some (Some 1732280400000)"
proof -
  have "findFreeSlots utcLib 0 [Some longMeeting, Some shortMeeting] (Some 1732262400000) (Some 1732305600000) defaults
     = Inr [\<lparr> f_startTime = 1732262400000, f_endTime = 1732269600000, f_duration = 120,
              f_date = ''2024-11-22'' \<rparr>,
            \<lparr> f_startTime = 1732280400000, f_endTime = 1732305600000, f_duration = 420,
              f_date = ''2024-11-22'' \<rparr>]"
    by (simp add: findFreeSlots_def defaults_def List.map_filter_def busy_long busy_short
          walk_def gapSlot_def floorHour_def lib_isoDate isoDate_0800 isoDate_1300)
  moreover have "newDate utcLib (e_date longMeeting) = Some 1732269600000
   \<and> newDate utcLib (e_endDate longMeeting) = Some 1732298400000"
    by (simp add: longMeeting_def noEvent_def lib_parse parse_1000 parse_1800)
  moreover have "map_option (\<lambda>b. fst (walk utcLib 120 b (Some 1732262400000, [])))
         (toBusy utcLib 1732262400000 longMeeting) = Some (Some 1732302000000)
   \<and> map_option (\<lambda>b. fst (walk utcLib 120 b (Some 1732302000000, [])))
         (toBusy utcLib 1732262400000 shortMeeting) = Some (Some 1732280400000)"
    by (simp add: busy_long busy_short walk_def floorHour_def)
  ultimately show ?thesis
    by (simp add: slotOverlaps_def)
qed

section \<open>Properties of conflict detection\<close>

lemma intervals_meet:
  fixes a b c d :: nat
  assumes "a < b" "c < d"
  shows "{a..<b} \<inter> {c..<d} \<noteq> {} \<longleftrightarrow> a < d \<and> c < b"
proof
  assume "{a..<b} \<inter> {c..<d} \<noteq> {}"
  then obtain x where "x \<in> {a..<b}" "x \<in> {c..<d}" by blast
  then have "a \<le> x" "x < b" "c \<le> x" "x < d" by simp_all
  then show "a < d \<and> c < b" by linarith
next
  assume h: "a < d \<and> c < b"
  have "max a c \<in> {a..<b} \<inter> {c..<d}"
    using assms h by auto
  then show "{a..<b} \<inter> {c..<d} \<noteq> {}" by blast
qed

text \<open>
  C1. \<open>checkConflict\<close> reports a conflict exactly when some existing event on the
  candidate's day satisfies \<open>startA < endB\<close> and \<open>startB < endA\<close>; for intervals of
  positive length that is the intersection of the half-open intervals being non-empty. When
  every event of the day ends by the candidate's start or starts at or after its end, as
  back-to-back events do, there is no conflict.
\<close>

theorem checkConflict_iff_overlap:
  "(hasConflict (checkConflict candidate events)
      \<longleftrightarrow> (\<exists>e \<in> set events. t_date e = t_date candidate
             \<and> startOf candidate < endOf e \<and> startOf e < endOf candidate))
   \<and> (startOf candidate < endOf candidate \<and> startOf e < endOf e \<longrightarrow>
        (startOf candidate < endOf e \<and> startOf e < endOf candidate
           \<longleftrightarrow> {startOf candidate ..< endOf candidate} \<inter> {startOf e ..< endOf e} \<noteq> {}))
   \<and> ((\<forall>e \<in> set events. t_date e = t_date candidate
          \<longrightarrow> endOf e \<le> startOf candidate \<or> endOf candidate \<le> startOf e)
        \<longrightarrow> \<not> hasConflict (checkConflict candidate events))"
proof (intro conjI impI)
  show "hasConflict (checkConflict candidate events)
      \<longleftrightarrow> (\<exists>e \<in> set events. t_date e = t_date candidate
             \<and> startOf candidate < endOf e \<and> startOf e < endOf candidate)"
    by (auto simp: checkConflict_def Let_def conflictsWith_def filter_empty_conv)
next
  assume "startOf candidate < endOf candidate \<and> startOf e < endOf e"
  then show "startOf candidate < endOf e \<and> startOf e < endOf candidate
           \<longleftrightarrow> {startOf candidate ..< endOf candidate} \<inter> {startOf e ..< endOf e} \<noteq> {}"
    using intervals_meet [of "startOf candidate" "endOf candidate" "startOf e" "endOf e"] by simp
next
  assume "\<forall>e \<in> set events. t_date e = t_date candidate
          \<longrightarrow> endOf e \<le> startOf candidate \<or> endOf candidate \<le> startOf e"
  then show "\<not> hasConflict (checkConflict candidate events)"
    by (fastforce simp: checkConflict_def Let_def conflictsWith_def filter_empty_conv)
qed

text \<open>
  Scenarios 1 and 2 of the specification: 14:00 for 60 minutes conflicts with 14:30 for 30
  minutes, and not with 15:00.
\<close>

theorem checkConflict_iff_overlap_witness:
  "hasConflict (checkConflict candidate2pm [existingHalfPast])
   \<and> conflictingEvent (checkConflict candidate2pm [existing3pm, existingHalfPast]) = Some existingHalfPast
   \<and> {startOf candidate2pm ..< endOf candidate2pm} \<inter> {startOf existingHalfPast ..< endOf existingHalfPast} \<noteq> {}
   \<and> endOf candidate2pm = startOf existing3pm
   \<and> \<not> hasConflict (checkConflict candidate2pm [existing3pm])"
proof -
  have v: "t_date existingHalfPast = t_date candidate2pm \<and> t_date existing3pm = t_date candidate2pm
      \<and> startOf candidate2pm = 840 \<and> endOf candidate2pm = 900
      \<and> startOf existingHalfPast = 870 \<and> endOf existingHalfPast = 900
      \<and> startOf existing3pm = 900 \<and> endOf existing3pm = 960"
    by (simp add: candidate2pm_def existingHalfPast_def existing3pm_def startOf_def endOf_def hhmm_def)
  from checkConflict_iff_overlap [of candidate2pm "[existingHalfPast]" existingHalfPast] v
  have a: "hasConflict (checkConflict candidate2pm [existingHalfPast])
      \<and> {startOf candidate2pm ..< endOf candidate2pm} \<inter> {startOf existingHalfPast ..< endOf existingHalfPast} \<noteq> {}"
    by simp
  from checkConflict_iff_overlap [of candidate2pm "[existing3pm]" existing3pm] v
  have b: "\<not> hasConflict (checkConflict candidate2pm [existing3pm])"
    by simp
  have c: "conflictingEvent (checkConflict candidate2pm [existing3pm, existingHalfPast]) = Some existingHalfPast"
    using v by (simp add: checkConflict_def conflictsWith_def)
  from a b c v show ?thesis by simp
qed


end
